theory Spec2Isabelle
  imports Complex_Main "HOL-Library.Sublist" "HOL-Library.Char_ord"
    "HOL-Library.List_Lexorder" "HOL-Library.Product_Lexorder" "HOL-Library.Log_Nat"
    "HOL-Library.AList"
begin

section \<open>Data model (lib/types.ts)\<close>

text \<open>The source is \<open>src/unnamed/part_000\<close>.\<close>

text \<open>
  A JavaScript \<open>number\<close> is a finite IEEE-754 double, written here as the rational it
  denotes (NaN and the infinities are left out). A \<open>Blob\<close> is its byte content (the MIME
  type is not part of the model); \<open>new Blob()\<close> is the empty list and \<open>blob.size\<close> its
  length. A Blob object is always truthy, also when it is empty.
\<close>

type_synonym number = rat
type_synonym blob = "nat list"

text \<open>
  The sum of two numbers is the exact sum rounded to the nearest double, ties to the
  even significand. A double has 53 significant bits and the doubles are no finer than
  \<open>2\<^sup>-\<^sup>1\<^sup>0\<^sup>7\<^sup>4\<close>: \<open>ulpExp x\<close> is the exponent of the spacing of the doubles around \<open>x\<close>, and
  \<open>toDouble x\<close> the double nearest to \<open>x\<close>, which is also the value of a decimal literal
  \<open>x\<close>. Overflow to Infinity (sums beyond \<open>2\<^sup>1\<^sup>0\<^sup>2\<^sup>4\<close>) is not modelled.
\<close>

definition roundTiesToEven :: "rat \<Rightarrow> int" where
  "roundTiesToEven q =
     (let f = \<lfloor>q\<rfloor>; d = q - of_int f
      in if d < 1 / 2 then f else if 1 / 2 < d then f + 1 else if even f then f else f + 1)"

text \<open>\<open>ilog2 x\<close> is the integer \<open>k\<close> with \<open>2\<^sup>k \<le> |x| < 2\<^sup>k\<^sup>+\<^sup>1\<close>, for \<open>x\<close> other than zero.\<close>

definition ilog2 :: "rat \<Rightarrow> int" where
  "ilog2 x =
     (let (p, q) = quotient_of \<bar>x\<bar>; k = bitlen p - bitlen q
      in if 2 powi k \<le> \<bar>x\<bar> then k else k - 1)"

definition ulpExp :: "rat \<Rightarrow> int" where
  "ulpExp x = max (ilog2 x - 52) (- 1074)"

definition toDouble :: "rat \<Rightarrow> number" where
  "toDouble x = of_int (roundTiesToEven (x / 2 powi ulpExp x)) * 2 powi ulpExp x"

definition js_add :: "number \<Rightarrow> number \<Rightarrow> number" where
  "js_add a b = toDouble (a + b)"

text \<open>
  A \<open>Date\<close> holds a time value in milliseconds since the epoch, or is an Invalid Date.
  \<open>toISOString\<close> throws a RangeError on an Invalid Date and otherwise prints the time
  value as ISO-8601 text, from which \<open>new Date(text)\<close> reads the same time value back.
  The text itself is kept abstract: \<open>IsoString t\<close> stands for the ISO-8601 text of the
  time value \<open>t\<close>.
\<close>

datatype js_date = JsDate int | InvalidDate
datatype iso_string = IsoString int

datatype error = Error string | RangeError | SyntaxError | AudioTooLarge nat

fun toISOString :: "js_date \<Rightarrow> error + iso_string" where
  "toISOString (JsDate t) = Inr (IsoString t)"
| "toISOString InvalidDate = Inl RangeError"

fun newDate :: "iso_string \<Rightarrow> js_date" where
  "newDate (IsoString t) = JsDate t"

fun getTime :: "js_date \<Rightarrow> int option" where
  "getTime (JsDate t) = Some t"
| "getTime InvalidDate = None"

record speaker =
  speaker_id :: string
  speaker_name :: string
  speaker_color :: string

datatype priority = High | Medium | Low
datatype claude_model = Haiku | Sonnet

record action_item =
  task :: string
  owner :: string
  deadline :: "string option"
  priority :: "priority option"

text \<open>
  \<open>Summary\<close> and \<open>SummaryDB\<close>, \<open>Meeting\<close> and \<open>MeetingDB\<close> differ only in the type of
  their dates (\<open>Date\<close> or ISO string) and of the audio (\<open>Blob\<close> or \<open>Blob | null\<close>), so each
  pair is one record with these types as parameters.
\<close>

record 'd summary_rec =
  executive :: string
  keyPoints :: "string list"
  actionItems :: "action_item list"
  decisions :: "string list"
  questions :: "string list"
  summary_category :: string
  summary_tags :: "string list"
  generatedAt :: 'd
  model :: claude_model

type_synonym summary = "js_date summary_rec"
type_synonym summary_db = "iso_string summary_rec"

record ('d, 'b) meeting_rec =
  meeting_id :: string
  title :: string
  date :: 'd
  duration :: number
  audioBlob :: 'b
  transcript :: string
  summary :: "'d summary_rec option"
  speakers :: "speaker list"
  tags :: "string list"
  category :: string
  archived :: bool
  createdAt :: 'd
  updatedAt :: 'd

type_synonym meeting = "(js_date, blob) meeting_rec"
type_synonym meeting_db = "(iso_string, blob option) meeting_rec"

record cost_tracking_db =
  month :: string
  transcriptionCost :: number
  summarizationCost :: number
  meetingCount :: number
  totalCost :: number
  lastUpdated :: iso_string

section \<open>Serialization adapter (lib/db.ts)\<close>

definition summaryToDB :: "summary \<Rightarrow> error + summary_db" where
  "summaryToDB s =
     (case toISOString (generatedAt s) of
        Inl e \<Rightarrow> Inl e
      | Inr g \<Rightarrow> Inr \<lparr>executive = executive s, keyPoints = keyPoints s,
          actionItems = actionItems s, decisions = decisions s, questions = questions s,
          summary_category = summary_category s, summary_tags = summary_tags s,
          generatedAt = g, model = model s\<rparr>)"

definition dbToSummary :: "summary_db \<Rightarrow> summary" where
  "dbToSummary db =
     \<lparr>executive = executive db, keyPoints = keyPoints db,
      actionItems = actionItems db, decisions = decisions db, questions = questions db,
      summary_category = summary_category db, summary_tags = summary_tags db,
      generatedAt = newDate (generatedAt db), model = model db\<rparr>"

text \<open>\<open>x ? summaryToDB(x) : undefined\<close> on an optional summary.\<close>

definition optSummaryToDB :: "summary option \<Rightarrow> error + summary_db option" where
  "optSummaryToDB so =
     (case so of
        None \<Rightarrow> Inr None
      | Some s \<Rightarrow> (case summaryToDB s of Inl e \<Rightarrow> Inl e | Inr sdb \<Rightarrow> Inr (Some sdb)))"

definition meetingToDB :: "meeting \<Rightarrow> error + meeting_db" where
  "meetingToDB m =
     (case toISOString (date m) of Inl e \<Rightarrow> Inl e | Inr d \<Rightarrow>
      case toISOString (createdAt m) of Inl e \<Rightarrow> Inl e | Inr c \<Rightarrow>
      case toISOString (updatedAt m) of Inl e \<Rightarrow> Inl e | Inr u \<Rightarrow>
      case optSummaryToDB (summary m) of Inl e \<Rightarrow> Inl e | Inr sdb \<Rightarrow>
        Inr \<lparr>meeting_id = meeting_id m, title = title m, date = d,
          duration = duration m,
          audioBlob = (if archived m then None else Some (audioBlob m)),
          transcript = transcript m, summary = sdb, speakers = speakers m,
          tags = tags m, category = category m, archived = archived m,
          createdAt = c, updatedAt = u\<rparr>)"

text \<open>\<open>db.audioBlob || new Blob()\<close>: only \<open>null\<close> is falsy.\<close>

definition dbToMeeting :: "meeting_db \<Rightarrow> meeting" where
  "dbToMeeting db =
     \<lparr>meeting_id = meeting_id db, title = title db, date = newDate (date db),
      duration = duration db,
      audioBlob = (case audioBlob db of None \<Rightarrow> [] | Some b \<Rightarrow> b),
      transcript = transcript db, summary = map_option dbToSummary (summary db),
      speakers = speakers db, tags = tags db, category = category db,
      archived = archived db,
      createdAt = newDate (createdAt db), updatedAt = newDate (updatedAt db)\<rparr>"

text \<open>A meeting has valid Date fields when none of its four dates is an Invalid Date.\<close>

definition validDate :: "js_date \<Rightarrow> bool" where
  "validDate d = (case d of JsDate t \<Rightarrow> True | InvalidDate \<Rightarrow> False)"

definition validDates :: "meeting \<Rightarrow> bool" where
  "validDates m =
     (validDate (date m) \<and> validDate (createdAt m) \<and> validDate (updatedAt m) \<and>
      (case summary m of None \<Rightarrow> True | Some s \<Rightarrow> validDate (generatedAt s)))"

section \<open>Persistent store (lib/db.ts)\<close>

text \<open>
  An IndexedDB object store with a key path holds at most one record per key, in key
  order. \<open>put\<close> replaces the record with the same key or inserts a new one.
\<close>

definition os_get :: "('r \<Rightarrow> string) \<Rightarrow> 'r list \<Rightarrow> string \<Rightarrow> 'r option" where
  "os_get keyPath rs k = find (\<lambda>r. keyPath r = k) rs"

definition os_put :: "('r \<Rightarrow> string) \<Rightarrow> 'r \<Rightarrow> 'r list \<Rightarrow> 'r list" where
  "os_put keyPath r rs = insort_key keyPath r (filter (\<lambda>x. keyPath x \<noteq> keyPath r) rs)"

definition os_delete :: "('r \<Rightarrow> string) \<Rightarrow> string \<Rightarrow> 'r list \<Rightarrow> 'r list" where
  "os_delete keyPath k rs = filter (\<lambda>x. keyPath x \<noteq> k) rs"

record store =
  meetings :: "meeting_db list"
  costs :: "cost_tracking_db list"

definition emptyStore :: store where
  "emptyStore = \<lparr>meetings = [], costs = []\<rparr>"

section \<open>Meeting repository (lib/db.ts)\<close>

definition saveMeeting :: "meeting \<Rightarrow> store \<Rightarrow> error + store" where
  "saveMeeting m s =
     (case meetingToDB m of
        Inl e \<Rightarrow> Inl e
      | Inr meetingDB \<Rightarrow> Inr (s\<lparr>meetings := os_put meeting_id meetingDB (meetings s)\<rparr>))"

definition getMeeting :: "string \<Rightarrow> store \<Rightarrow> meeting option" where
  "getMeeting i s = map_option dbToMeeting (os_get meeting_id (meetings s) i)"

text \<open>
  \<open>getAllFromIndex('meetings', 'by-date')\<close> lists the records by date text, then by
  primary key. The time value stands for the date text here; the sort by time that
  follows in \<open>getAllMeetings\<close> is stable, so only the order among equal dates (by
  primary key) survives it.
\<close>

fun isoKey :: "iso_string \<Rightarrow> int" where
  "isoKey (IsoString t) = t"

definition getAllFromIndex_by_date :: "store \<Rightarrow> meeting_db list" where
  "getAllFromIndex_by_date s = sort_key (\<lambda>r. (isoKey (date r), meeting_id r)) (meetings s)"

text \<open>
  \<open>.sort((a, b) => b.date.getTime() - a.date.getTime())\<close>: a stable sort, newest first.
  Dates read from the store are never invalid, so the second case is not reached from
  \<open>getAllMeetings\<close>.
\<close>

definition sortNewestFirst :: "meeting list \<Rightarrow> meeting list" where
  "sortNewestFirst ms =
     sort_key (\<lambda>m. case getTime (date m) of Some t \<Rightarrow> - t | None \<Rightarrow> 0) ms"

definition getAllMeetings :: "store \<Rightarrow> meeting list" where
  "getAllMeetings s = sortNewestFirst (map dbToMeeting (getAllFromIndex_by_date s))"

text \<open>\<open>Partial<Meeting>\<close>: every field of a Meeting, each possibly \<open>undefined\<close>.\<close>

record updates =
  u_id :: "string option"
  u_title :: "string option"
  u_date :: "js_date option"
  u_duration :: "number option"
  u_audioBlob :: "blob option"
  u_transcript :: "string option"
  u_summary :: "summary option"
  u_speakers :: "speaker list option"
  u_tags :: "string list option"
  u_category :: "string option"
  u_archived :: "bool option"
  u_createdAt :: "js_date option"
  u_updatedAt :: "js_date option"

definition noUpdates :: updates where
  "noUpdates = \<lparr>u_id = None, u_title = None, u_date = None, u_duration = None,
     u_audioBlob = None, u_transcript = None, u_summary = None, u_speakers = None,
     u_tags = None, u_category = None, u_archived = None, u_createdAt = None,
     u_updatedAt = None\<rparr>"

text \<open>One key of \<open>{...existing, ...updatesDB}\<close>: the update's value when it is defined.\<close>

definition override :: "'a option \<Rightarrow> 'a \<Rightarrow> 'a" where
  "override upd old = (case upd of None \<Rightarrow> old | Some v \<Rightarrow> v)"

definition optToISOString :: "js_date option \<Rightarrow> error + iso_string option" where
  "optToISOString d =
     (case d of
        None \<Rightarrow> Inr None
      | Some x \<Rightarrow> (case toISOString x of Inl e \<Rightarrow> Inl e | Inr t \<Rightarrow> Inr (Some t)))"

text \<open>\<open>now\<close> is the time value of \<open>new Date()\<close> at the call.\<close>

definition updateMeeting :: "string \<Rightarrow> updates \<Rightarrow> int \<Rightarrow> store \<Rightarrow> error + store" where
  "updateMeeting i u now s =
     (case os_get meeting_id (meetings s) i of
        None \<Rightarrow> Inl (Error (''Meeting with id '' @ i @ '' not found''))
      | Some existing \<Rightarrow>
         (case optToISOString (u_date u) of Inl e \<Rightarrow> Inl e | Inr d \<Rightarrow>
          case optSummaryToDB (u_summary u) of Inl e \<Rightarrow> Inl e | Inr sm \<Rightarrow>
            Inr (s\<lparr>meetings := os_put meeting_id
              (existing\<lparr>title := override (u_title u) (title existing),
                 transcript := override (u_transcript u) (transcript existing),
                 speakers := override (u_speakers u) (speakers existing),
                 tags := override (u_tags u) (tags existing),
                 category := override (u_category u) (category existing),
                 archived := override (u_archived u) (archived existing),
                 duration := override (u_duration u) (duration existing),
                 audioBlob := override (map_option Some (u_audioBlob u)) (audioBlob existing),
                 date := override d (date existing),
                 summary := override (map_option Some sm) (summary existing),
                 updatedAt := IsoString now\<rparr>)
              (meetings s)\<rparr>)))"

definition deleteMeeting :: "string \<Rightarrow> store \<Rightarrow> store" where
  "deleteMeeting i s = s\<lparr>meetings := os_delete meeting_id i (meetings s)\<rparr>"

definition archiveMeeting :: "string \<Rightarrow> int \<Rightarrow> store \<Rightarrow> error + store" where
  "archiveMeeting i now s =
     updateMeeting i (noUpdates\<lparr>u_archived := Some True, u_audioBlob := Some []\<rparr>) now s"

text \<open>
  A string is written as the list of the bytes of its UTF-8 encoding, one byte for each
  ASCII character. \<open>s.includes(q)\<close>, here \<open>str_includes s q\<close>, holds when \<open>q\<close> starts at
  some position of \<open>s\<close>; for well-formed text a run of UTF-16 code units of \<open>s\<close> equals
  \<open>q\<close> exactly when a run of the bytes of \<open>s\<close> equals the bytes of \<open>q\<close>.

  \<open>String.prototype.toLowerCase\<close> is the lowercase conversion of the JavaScript engine: it
  follows the Unicode character database, can change the length of a text and lowers a
  capital sigma according to its place in the word. It is not code of the repository
  and is a parameter of every function that calls it: \<open>lowerOf\<close> gives the lowercase
  of each non-empty string, and the lowercase of the empty string is empty.
\<close>

definition toLowerCase :: "(string \<Rightarrow> string) \<Rightarrow> string \<Rightarrow> string" where
  "toLowerCase lowerOf s = (case s of [] \<Rightarrow> [] | c # cs \<Rightarrow> lowerOf s)"

fun str_includes :: "string \<Rightarrow> string \<Rightarrow> bool" where
  "str_includes [] q = (q = [])"
| "str_includes (c # cs) q = (prefix q (c # cs) \<or> str_includes cs q)"

definition matchesQuery :: "(string \<Rightarrow> string) \<Rightarrow> string \<Rightarrow> meeting \<Rightarrow> bool" where
  "matchesQuery lowerOf lowerQuery m =
     (str_includes (toLowerCase lowerOf (title m)) lowerQuery \<or>
      str_includes (toLowerCase lowerOf (transcript m)) lowerQuery \<or>
      list_ex (\<lambda>tag. str_includes (toLowerCase lowerOf tag) lowerQuery) (tags m) \<or>
      (case summary m of None \<Rightarrow> False
       | Some sm \<Rightarrow> str_includes (toLowerCase lowerOf (executive sm)) lowerQuery) \<or>
      (case summary m of None \<Rightarrow> False
       | Some sm \<Rightarrow>
           list_ex (\<lambda>kp. str_includes (toLowerCase lowerOf kp) lowerQuery) (keyPoints sm)))"

definition searchMeetings :: "(string \<Rightarrow> string) \<Rightarrow> string \<Rightarrow> store \<Rightarrow> meeting list" where
  "searchMeetings lowerOf query s =
     filter (matchesQuery lowerOf (toLowerCase lowerOf query)) (getAllMeetings s)"

section \<open>Cost ledger (lib/db.ts, lib/costs.ts)\<close>

text \<open>\<open>now\<close> is the time value of \<open>new Date()\<close> inside \<open>updateCostTracking\<close>.\<close>

definition updateCostTracking :: "string \<Rightarrow> number \<Rightarrow> number \<Rightarrow> int \<Rightarrow> store \<Rightarrow> store" where
  "updateCostTracking mon transcriptionCost' summarizationCost' now s =
     (let updated =
        (case os_get month (costs s) mon of
           Some existing \<Rightarrow>
             existing\<lparr>transcriptionCost := js_add (transcriptionCost existing) transcriptionCost',
               summarizationCost := js_add (summarizationCost existing) summarizationCost',
               meetingCount := js_add (meetingCount existing) 1,
               totalCost := js_add (js_add (js_add (transcriptionCost existing)
                                (summarizationCost existing)) transcriptionCost')
                              summarizationCost',
               lastUpdated := IsoString now\<rparr>
         | None \<Rightarrow>
             \<lparr>month = mon, transcriptionCost = transcriptionCost',
              summarizationCost = summarizationCost', meetingCount = 1,
              totalCost = js_add transcriptionCost' summarizationCost',
              lastUpdated = IsoString now\<rparr>)
      in s\<lparr>costs := os_put month updated (costs s)\<rparr>)"

text \<open>
  What \<open>logCost\<close> reads from the clock: the local year and month index (0 to 11) of its
  own \<open>new Date()\<close>, and the time value of the \<open>new Date()\<close> in \<open>updateCostTracking\<close>.
\<close>

record clock =
  fullYear :: nat
  monthIndex :: nat
  timeValue :: int

fun showNat :: "nat \<Rightarrow> string" where
  "showNat n =
     (if n < 10 then [char_of (48 + n)]
      else showNat (n div 10) @ [char_of (48 + n mod 10)])"

declare showNat.simps [simp del]

text \<open>\<open>s.padStart(2, '0')\<close>\<close>

definition padStart2 :: "string \<Rightarrow> string" where
  "padStart2 s = replicate (2 - length s) (CHR ''0'') @ s"

definition monthKey :: "clock \<Rightarrow> string" where
  "monthKey c = showNat (fullYear c) @ ''-'' @ padStart2 (showNat (monthIndex c + 1))"

datatype cost_type = Transcription | Summarization

text \<open>
  The store of the model has no failure, so the \<open>catch\<close> of \<open>logCost\<close> has nothing to
  swallow. The meeting id only goes into the debug log.
\<close>

definition logCost :: "string \<Rightarrow> cost_type \<Rightarrow> number \<Rightarrow> clock \<Rightarrow> store \<Rightarrow> store" where
  "logCost meetingId type amount c s =
     updateCostTracking (monthKey c)
       (if type = Transcription then amount else 0)
       (if type = Summarization then amount else 0)
       (timeValue c) s"

section \<open>Transcription of chunked audio (lib/whisper.ts)\<close>

text \<open>The source is the second document of \<open>src/lib/db.ts\<close>.\<close>

record whisper_segment =
  seg_id :: number
  seek :: number
  seg_start :: number
  seg_end :: number
  seg_text :: string
  tokens :: "number list"
  temperature :: number
  avg_logprob :: number
  compression_ratio :: number
  no_speech_prob :: number

record whisper_response =
  resp_text :: string
  segments :: "whisper_segment list option"

text \<open>
  What the Whisper API answers to one request: an error, or a text with the segments
  (\<open>None\<close> when the answer has no \<open>segments\<close> or a falsy one).
\<close>

record api_transcription =
  api_text :: string
  api_segments :: "whisper_segment list option"

definition MAX_FILE_SIZE :: nat where
  "MAX_FILE_SIZE = 25 * 1024 * 1024"

text \<open>\<open>answer\<close> is what the API call returns for this Blob, if the call is made.\<close>

definition transcribeAudio :: "error + api_transcription \<Rightarrow> blob \<Rightarrow> error + whisper_response" where
  "transcribeAudio answer audio =
     (if length audio > MAX_FILE_SIZE then Inl (AudioTooLarge (length audio))
      else (case answer of
              Inl e \<Rightarrow> Inl e
            | Inr transcription \<Rightarrow>
                Inr \<lparr>resp_text = api_text transcription,
                     segments = Some (case api_segments transcription of
                                        None \<Rightarrow> [] | Some segs \<Rightarrow> segs)\<rparr>))"

definition adjustTimestamps :: "number \<Rightarrow> whisper_segment \<Rightarrow> whisper_segment" where
  "adjustTimestamps cumulativeTime segment =
     segment\<lparr>seg_start := js_add (seg_start segment) cumulativeTime,
       seg_end := js_add (seg_end segment) cumulativeTime\<rparr>"

text \<open>The loop over the chunks, each paired with the API's answer for it.\<close>

fun transcribeChunks ::
  "(blob \<times> (error + api_transcription)) list \<Rightarrow> number \<Rightarrow> error + whisper_response list" where
  "transcribeChunks [] cumulativeTime = Inr []"
| "transcribeChunks ((chunk, answer) # chunks) cumulativeTime =
     (case transcribeAudio answer chunk of
        Inl e \<Rightarrow> Inl e
      | Inr result \<Rightarrow>
         (let adjusted = map_option (map (adjustTimestamps cumulativeTime)) (segments result);
              cumulativeTime' =
                (case adjusted of
                   None \<Rightarrow> cumulativeTime
                 | Some segs \<Rightarrow> if segs = [] then cumulativeTime else seg_end (last segs))
          in case transcribeChunks chunks cumulativeTime' of
               Inl e \<Rightarrow> Inl e
             | Inr results \<Rightarrow> Inr (result\<lparr>segments := adjusted\<rparr> # results)))"

text \<open>\<open>xs.join(' ')\<close>\<close>

fun joinSpace :: "string list \<Rightarrow> string" where
  "joinSpace [] = []"
| "joinSpace [x] = x"
| "joinSpace (x # y # ys) = x @ '' '' @ joinSpace (y # ys)"

definition segmentsOrEmpty :: "whisper_response \<Rightarrow> whisper_segment list" where
  "segmentsOrEmpty r = (case segments r of None \<Rightarrow> [] | Some segs \<Rightarrow> segs)"

definition transcribeChunkedAudio ::
  "(blob \<times> (error + api_transcription)) list \<Rightarrow> error + whisper_response" where
  "transcribeChunkedAudio chunks =
     (case transcribeChunks chunks 0 of
        Inl e \<Rightarrow> Inl e
      | Inr results \<Rightarrow>
          Inr \<lparr>resp_text = joinSpace (map resp_text results),
               segments = Some (concat (map segmentsOrEmpty results))\<rparr>)"

section \<open>Export/import engine (lib/export.ts)\<close>

text \<open>The source is the first document of \<open>src/unnamed/part_001\<close>.\<close>

text \<open>
  \<open>ExportedMeeting\<close>, with the type of its four date strings as a parameter: the export
  fills them with the ISO strings of \<open>toISOString\<close>, while the \<open>metadata.json\<close> handed
  to the import can hold any text there. \<open>DateText t\<close> stands for a text that \<open>new Date\<close>
  reads as the time value \<open>t\<close> (the ISO string of \<open>t\<close> is one), \<open>Unparsable\<close> for a text
  that \<open>new Date\<close> reads as an Invalid Date.
\<close>

datatype date_text = DateText int | Unparsable

text \<open>An ISO string as the text it is.\<close>

fun isoText :: "iso_string \<Rightarrow> date_text" where
  "isoText (IsoString t) = DateText t"

text \<open>\<open>new Date(text)\<close>\<close>

fun parseDate :: "date_text \<Rightarrow> js_date" where
  "parseDate (DateText t) = JsDate t"
| "parseDate Unparsable = InvalidDate"

record 'd export_metadata =
  md_id :: string
  md_title :: string
  md_date :: 'd
  md_duration :: number
  md_speakers :: "speaker list"
  md_tags :: "string list"
  md_category :: string
  md_archived :: bool
  md_createdAt :: 'd
  md_updatedAt :: 'd

record 'd exported_meeting =
  metadata :: "'d export_metadata"
  em_transcript :: string
  em_summary :: "'d summary_rec option"
  hasAudio :: bool

text \<open>\<open>{...summary, generatedAt: f(summary.generatedAt)}\<close>\<close>

definition withGeneratedAt :: "('a \<Rightarrow> 'b) \<Rightarrow> 'a summary_rec \<Rightarrow> 'b summary_rec" where
  "withGeneratedAt f sm =
     \<lparr>executive = executive sm, keyPoints = keyPoints sm,
      actionItems = actionItems sm, decisions = decisions sm, questions = questions sm,
      summary_category = summary_category sm, summary_tags = summary_tags sm,
      generatedAt = f (generatedAt sm), model = model sm\<rparr>"

text \<open>
  The text of \<open>metadata.json\<close> is written as the \<open>ExportedMeeting\<close> it parses to:
  \<open>JSON.parse\<close> gives back what \<open>JSON.stringify\<close> was given, the dates as their text (a
  summary that is \<open>undefined\<close> is left out and read back as \<open>undefined\<close>), and throws a
  SyntaxError on text that is not JSON. JSON of another shape is outside the model.
\<close>

datatype 'a json_text = JsonOf 'a | Malformed

definition asText :: "iso_string exported_meeting \<Rightarrow> date_text exported_meeting" where
  "asText em =
     \<lparr>metadata = \<lparr>md_id = md_id (metadata em), md_title = md_title (metadata em),
        md_date = isoText (md_date (metadata em)), md_duration = md_duration (metadata em),
        md_speakers = md_speakers (metadata em), md_tags = md_tags (metadata em),
        md_category = md_category (metadata em), md_archived = md_archived (metadata em),
        md_createdAt = isoText (md_createdAt (metadata em)),
        md_updatedAt = isoText (md_updatedAt (metadata em))\<rparr>,
      em_transcript = em_transcript em,
      em_summary = map_option (withGeneratedAt isoText) (em_summary em),
      hasAudio = hasAudio em\<rparr>"

definition JSON_stringify :: "iso_string exported_meeting \<Rightarrow> date_text exported_meeting json_text" where
  "JSON_stringify em = JsonOf (asText em)"

text \<open>
  A ZIP archive of one meeting, as the files \<open>importMeeting\<close> looks for. The two derived,
  human-readable files \<open>transcript.txt\<close> and \<open>summary.md\<close> are written by the export
  and never read by the import; they are left out.
\<close>

record meeting_zip =
  audio_webm :: "blob option"
  metadata_json :: "date_text exported_meeting json_text option"

definition exportedMetadata :: "meeting \<Rightarrow> error + iso_string exported_meeting" where
  "exportedMetadata m =
     (case toISOString (date m) of Inl e \<Rightarrow> Inl e | Inr d \<Rightarrow>
      case toISOString (createdAt m) of Inl e \<Rightarrow> Inl e | Inr c \<Rightarrow>
      case toISOString (updatedAt m) of Inl e \<Rightarrow> Inl e | Inr u \<Rightarrow>
      case optSummaryToDB (summary m) of Inl e \<Rightarrow> Inl e | Inr sm \<Rightarrow>
        Inr \<lparr>metadata = \<lparr>md_id = meeting_id m, md_title = title m, md_date = d,
               md_duration = duration m, md_speakers = speakers m, md_tags = tags m,
               md_category = category m, md_archived = archived m,
               md_createdAt = c, md_updatedAt = u\<rparr>,
             em_transcript = transcript m, em_summary = sm,
             hasAudio = (\<not> archived m \<and> length (audioBlob m) > 0)\<rparr>)"

definition exportMeeting :: "string \<Rightarrow> store \<Rightarrow> error + meeting_zip" where
  "exportMeeting meetingId s =
     (case getMeeting meetingId s of
        None \<Rightarrow> Inl (Error (''Meeting with id '' @ meetingId @ '' not found''))
      | Some m \<Rightarrow>
         (case exportedMetadata m of
            Inl e \<Rightarrow> Inl e
          | Inr exportedMeeting \<Rightarrow>
              Inr \<lparr>audio_webm =
                     (if \<not> archived m \<and> length (audioBlob m) > 0
                      then Some (audioBlob m) else None),
                   metadata_json = Some (JSON_stringify exportedMeeting)\<rparr>))"

datatype duplicate_policy = Replace | KeepBoth | Skip

text \<open>
  \<open>uuid\<close> is the value \<open>crypto.randomUUID()\<close> returns when it is called, which is in the
  keep-both branch of a duplicate only.
\<close>

definition importMeeting ::
  "meeting_zip \<Rightarrow> duplicate_policy \<Rightarrow> string \<Rightarrow> store \<Rightarrow> error + string \<times> store" where
  "importMeeting zipBlob onDuplicate uuid s =
     (case metadata_json zipBlob of
        None \<Rightarrow> Inl (Error ''Invalid export file: metadata.json not found'')
      | Some Malformed \<Rightarrow> Inl SyntaxError
      | Some (JsonOf parsed) \<Rightarrow>
         (let existingMeeting = getMeeting (md_id (metadata parsed)) s in
          case (case existingMeeting of
                  None \<Rightarrow> Inr parsed
                | Some existing \<Rightarrow>
                    if onDuplicate = Skip then Inl (meeting_id existing)
                    else if onDuplicate = KeepBoth
                    then Inr (parsed\<lparr>metadata := (metadata parsed)\<lparr>md_id := uuid\<rparr>\<rparr>)
                    else Inr parsed) of
            Inl existingId \<Rightarrow> Inr (existingId, s)
          | Inr exportedMeeting \<Rightarrow>
             (let audio = (case audio_webm zipBlob of
                             None \<Rightarrow> []
                           | Some b \<Rightarrow> if hasAudio exportedMeeting then b else []);
                  m = \<lparr>meeting_id = md_id (metadata exportedMeeting),
                       title = md_title (metadata exportedMeeting),
                       date = parseDate (md_date (metadata exportedMeeting)),
                       duration = md_duration (metadata exportedMeeting),
                       audioBlob = audio,
                       transcript = em_transcript exportedMeeting,
                       summary = map_option (withGeneratedAt parseDate)
                                   (em_summary exportedMeeting),
                       speakers = md_speakers (metadata exportedMeeting),
                       tags = md_tags (metadata exportedMeeting),
                       category = md_category (metadata exportedMeeting),
                       archived = md_archived (metadata exportedMeeting),
                       createdAt = parseDate (md_createdAt (metadata exportedMeeting)),
                       updatedAt = parseDate (md_updatedAt (metadata exportedMeeting))\<rparr>
              in case saveMeeting m s of
                   Inl e \<Rightarrow> Inl e
                 | Inr s' \<Rightarrow> Inr (meeting_id m, s'))))"

text \<open>
  Bulk export. The folder of a meeting is named
  \<open>`${dateStr}_${titleSlug}_${meeting.id.substring(0, 8)}`\<close>. The three parts are kept
  apart (neither the date nor the slug contains an underscore, so the name determines
  them), and \<open>IsoDay n\<close> stands for the \<open>YYYY-MM-DD\<close> text of the \<open>n\<close>-th day since the
  epoch, the part of the ISO text before the \<open>T\<close>.
\<close>

datatype iso_day = IsoDay int

record folder_name =
  dateStr :: iso_day
  titleSlug :: string
  shortId :: string

definition isSlugChar :: "char \<Rightarrow> bool" where
  "isSlugChar c =
     (let n = (of_char c :: nat) in (97 \<le> n \<and> n \<le> 122) \<or> (48 \<le> n \<and> n \<le> 57))"

text \<open>\<open>.replace(/[^a-z0-9]+/g, '-')\<close>; \<open>inRun\<close> says that the dash of the current run is written.\<close>

fun replaceRuns :: "bool \<Rightarrow> string \<Rightarrow> string" where
  "replaceRuns inRun [] = []"
| "replaceRuns inRun (c # cs) =
     (if isSlugChar c then c # replaceRuns False cs
      else if inRun then replaceRuns True cs
      else CHR ''-'' # replaceRuns True cs)"

text \<open>\<open>.replace(/^-|-$/g, '')\<close>: one dash off the front and one off the end.\<close>

definition stripDashes :: "string \<Rightarrow> string" where
  "stripDashes s =
     (let a = (case s of [] \<Rightarrow> [] | c # cs \<Rightarrow> if c = CHR ''-'' then cs else s)
      in if a \<noteq> [] \<and> last a = CHR ''-'' then butlast a else a)"

definition folderName :: "(string \<Rightarrow> string) \<Rightarrow> meeting \<Rightarrow> error + folder_name" where
  "folderName lowerOf m =
     (case date m of
        InvalidDate \<Rightarrow> Inl RangeError
      | JsDate t \<Rightarrow>
          Inr \<lparr>dateStr = IsoDay (t div 86400000),
               titleSlug =
                 take 50 (stripDashes (replaceRuns False (toLowerCase lowerOf (title m)))),
               shortId = take 8 (meeting_id m)\<rparr>)"

text \<open>
  \<open>zip.folder(name)\<close> opens the folder of that name or creates it; a file written into
  it replaces the file of the same name. So a second meeting with the same folder name
  overwrites \<open>metadata.json\<close>, and \<open>audio.webm\<close> only when it has audio itself.
\<close>

definition writeFolder ::
  "meeting_zip option \<Rightarrow> meeting \<Rightarrow> iso_string exported_meeting \<Rightarrow> meeting_zip" where
  "writeFolder old m exportedMeeting =
     \<lparr>audio_webm =
        (if \<not> archived m \<and> length (audioBlob m) > 0 then Some (audioBlob m)
         else (case old of None \<Rightarrow> None | Some f \<Rightarrow> audio_webm f)),
      metadata_json = Some (JSON_stringify exportedMeeting)\<rparr>"

fun exportFolders ::
  "(string \<Rightarrow> string) \<Rightarrow> meeting list \<Rightarrow> (folder_name \<times> meeting_zip) list \<Rightarrow>
     error + (folder_name \<times> meeting_zip) list" where
  "exportFolders lowerOf [] fs = Inr fs"
| "exportFolders lowerOf (m # ms) fs =
     (case folderName lowerOf m of Inl e \<Rightarrow> Inl e | Inr name \<Rightarrow>
      case exportedMetadata m of Inl e \<Rightarrow> Inl e | Inr exportedMeeting \<Rightarrow>
        exportFolders lowerOf ms
          (AList.update name (writeFolder (map_of fs name) m exportedMeeting) fs))"

text \<open>
  The bulk archive: the folders and the README, of which the meeting count and the
  export date (\<open>new Date()\<close> at the call, time value \<open>now\<close>) are kept.
\<close>

record bulk_zip =
  folders :: "(folder_name \<times> meeting_zip) list"
  readme_txt :: "nat \<times> iso_string"

definition exportAllMeetings ::
  "(string \<Rightarrow> string) \<Rightarrow> int \<Rightarrow> store \<Rightarrow> error + bulk_zip" where
  "exportAllMeetings lowerOf now s =
     (let ms = getAllMeetings s in
      if length ms = 0 then Inl (Error ''No meetings to export'')
      else (case exportFolders lowerOf ms [] of
              Inl e \<Rightarrow> Inl e
            | Inr fs \<Rightarrow> Inr \<lparr>folders = fs, readme_txt = (length ms, IsoString now)\<rparr>))"

section \<open>Notions of the specification\<close>



text \<open>
  Texts of ASCII characters. On them \<open>toLowerCase\<close> turns the letters A to Z into a to z
  and leaves every other character alone (\<open>asciiLowering\<close> says so of the parameter), and
  a meeting is an ASCII meeting when the texts that the search reads are.
\<close>

definition asciiLower :: "char \<Rightarrow> char" where
  "asciiLower c =
     (let n = (of_char c :: nat) in if 65 \<le> n \<and> n \<le> 90 then char_of (n + 32) else c)"






text \<open>
  The specification's "imported content": the record that holds, under the id \<open>k\<close>, what
  the archive's metadata document, transcript, summary and audio payload say (the audio
  only when the metadata flags it and the meeting is not archived). It is defined for a
  metadata document whose dates are ISO strings.
\<close>

definition importedContent ::
  "meeting_zip \<Rightarrow> iso_string exported_meeting \<Rightarrow> string \<Rightarrow> meeting_db" where
  "importedContent z em k =
     \<lparr>meeting_id = k, title = md_title (metadata em), date = md_date (metadata em),
      duration = md_duration (metadata em),
      audioBlob = (if md_archived (metadata em) then None
                   else Some (case audio_webm z of
                                None \<Rightarrow> []
                              | Some b \<Rightarrow> if hasAudio em then b else [])),
      transcript = em_transcript em, summary = em_summary em,
      speakers = md_speakers (metadata em), tags = md_tags (metadata em),
      category = md_category (metadata em), archived = md_archived (metadata em),
      createdAt = md_createdAt (metadata em), updatedAt = md_updatedAt (metadata em)\<rparr>"

text \<open>
  The archive invariant of the specification, on a meeting as read from the store, and
  on a whole store.
\<close>

definition audioEmptyIfArchived :: "meeting \<Rightarrow> bool" where
  "audioEmptyIfArchived m = (archived m \<longrightarrow> audioBlob m = [])"

definition archiveInvariant :: "store \<Rightarrow> bool" where
  "archiveInvariant s = list_all (\<lambda>r. audioEmptyIfArchived (dbToMeeting r)) (meetings s)"

text \<open>
  The specification's combiner: the segments of each chunk are shifted by the end time
  of the last segment combined so far (zero when there is none yet) and appended.
  \<open>timeline\<close> lists the timestamps of a segment list in order, start before end, and a
  chunk is well timed when its timeline is non-decreasing and starts at or after zero.
\<close>

fun reoffsetAll :: "whisper_segment list list \<Rightarrow> whisper_segment list \<Rightarrow> whisper_segment list" where
  "reoffsetAll [] combined = combined"
| "reoffsetAll (segs # rest) combined =
     reoffsetAll rest
       (combined @ map (adjustTimestamps (if combined = [] then 0 else seg_end (last combined))) segs)"

definition timeline :: "whisper_segment list \<Rightarrow> number list" where
  "timeline segs = concat (map (\<lambda>seg. [seg_start seg, seg_end seg]) segs)"

definition wellTimed :: "whisper_segment list \<Rightarrow> bool" where
  "wellTimed segs = (sorted (timeline segs) \<and> list_all (\<lambda>t. 0 \<le> t) (timeline segs))"

definition answeredSegments :: "blob \<times> (error + api_transcription) \<Rightarrow> whisper_segment list" where
  "answeredSegments c =
     (case snd c of
        Inl e \<Rightarrow> []
      | Inr transcription \<Rightarrow>
          (case api_segments transcription of None \<Rightarrow> [] | Some segs \<Rightarrow> segs))"

text \<open>A chunk is transcribed when it is within the size limit and the API answers it.\<close>

definition transcribed :: "blob \<times> (error + api_transcription) \<Rightarrow> bool" where
  "transcribed c = (length (fst c) \<le> MAX_FILE_SIZE \<and> (case snd c of Inl e \<Rightarrow> False | Inr t \<Rightarrow> True))"

section \<open>Sample data\<close>

definition sampleSummary :: summary where
  "sampleSummary =
     \<lparr>executive = ''Budget approved'', keyPoints = [''Hire two engineers''],
      actionItems = [\<lparr>task = ''Post job ad'', owner = ''Ana'', deadline = None,
                      priority = Some High\<rparr>],
      decisions = [''Go''], questions = [], summary_category = ''planning'',
      summary_tags = [''budget''], generatedAt = JsDate 1735700000000, model = Haiku\<rparr>"

definition sampleMeeting :: meeting where
  "sampleMeeting =
     \<lparr>meeting_id = ''m1'', title = ''Weekly Sync'', date = JsDate 1735689600000,
      duration = 600, audioBlob = [82, 73, 70, 70], transcript = ''Hello team'',
      summary = Some sampleSummary,
      speakers = [\<lparr>speaker_id = ''speaker-1'', speaker_name = ''Speaker 1'',
                   speaker_color = ''#3B82F6''\<rparr>],
      tags = [''Roadmap''], category = ''other'', archived = True,
      createdAt = JsDate 1735689600000, updatedAt = JsDate 1735689700000\<rparr>"

definition activeMeeting :: meeting where
  "activeMeeting = sampleMeeting\<lparr>archived := False\<rparr>"

definition sampleSummaryDB :: summary_db where
  "sampleSummaryDB =
     \<lparr>executive = ''Budget approved'', keyPoints = [''Hire two engineers''],
      actionItems = [\<lparr>task = ''Post job ad'', owner = ''Ana'', deadline = None,
                      priority = Some High\<rparr>],
      decisions = [''Go''], questions = [], summary_category = ''planning'',
      summary_tags = [''budget''], generatedAt = IsoString 1735700000000, model = Haiku\<rparr>"

definition activeMeetingDB :: meeting_db where
  "activeMeetingDB =
     \<lparr>meeting_id = ''m1'', title = ''Weekly Sync'', date = IsoString 1735689600000,
      duration = 600, audioBlob = Some [82, 73, 70, 70], transcript = ''Hello team'',
      summary = Some sampleSummaryDB,
      speakers = [\<lparr>speaker_id = ''speaker-1'', speaker_name = ''Speaker 1'',
                   speaker_color = ''#3B82F6''\<rparr>],
      tags = [''Roadmap''], category = ''other'', archived = False,
      createdAt = IsoString 1735689600000, updatedAt = IsoString 1735689700000\<rparr>"

definition activeStore :: store where
  "activeStore = \<lparr>meetings = [activeMeetingDB], costs = []\<rparr>"

definition archivedOnly :: updates where
  "archivedOnly = noUpdates\<lparr>u_archived := Some True\<rparr>"

definition flaggedStore :: store where
  "flaggedStore =
     \<lparr>meetings = [activeMeetingDB\<lparr>archived := True, updatedAt := IsoString 1735689800000\<rparr>],
      costs = []\<rparr>"

definition olderMeetingDB :: meeting_db where
  "olderMeetingDB = activeMeetingDB\<lparr>meeting_id := ''m0'', title := ''Retro'',
     date := IsoString 1733000000000, audioBlob := None, archived := True\<rparr>"

definition twoStore :: store where
  "twoStore = \<lparr>meetings = [olderMeetingDB, activeMeetingDB], costs = []\<rparr>"



definition flaggedZip :: meeting_zip where
  "flaggedZip =
     \<lparr>audio_webm = None,
      metadata_json = Some (JSON_stringify
        \<lparr>metadata = \<lparr>md_id = ''m1'', md_title = ''Weekly Sync'',
           md_date = IsoString 1735689600000, md_duration = 600,
           md_speakers = [\<lparr>speaker_id = ''speaker-1'', speaker_name = ''Speaker 1'',
                            speaker_color = ''#3B82F6''\<rparr>],
           md_tags = [''Roadmap''], md_category = ''other'', md_archived = True,
           md_createdAt = IsoString 1735689600000, md_updatedAt = IsoString 1735689800000\<rparr>,
         em_transcript = ''Hello team'', em_summary = Some sampleSummaryDB,
         hasAudio = False\<rparr>)\<rparr>"

definition reimportedStore :: store where
  "reimportedStore =
     \<lparr>meetings = [activeMeetingDB\<lparr>archived := True, audioBlob := None,
                    updatedAt := IsoString 1735689800000\<rparr>],
      costs = []\<rparr>"

definition tenCents :: number where
  "tenCents = toDouble (1 / 10)"

definition october :: clock where
  "october = \<lparr>fullYear = 2025, monthIndex = 9, timeValue = 1760000000000\<rparr>"

definition threeLogged :: store where
  "threeLogged =
     logCost ''m3'' Transcription tenCents (october\<lparr>timeValue := 1760000200000\<rparr>)
       (logCost ''m2'' Transcription tenCents (october\<lparr>timeValue := 1760000100000\<rparr>)
          (logCost ''m1'' Transcription tenCents october emptyStore))"

definition mkSegment :: "number \<Rightarrow> number \<Rightarrow> number \<Rightarrow> string \<Rightarrow> whisper_segment" where
  "mkSegment i s e t =
     \<lparr>seg_id = i, seek = 0, seg_start = s, seg_end = e, seg_text = t, tokens = [],
      temperature = 0, avg_logprob = 0, compression_ratio = 1, no_speech_prob = 0\<rparr>"

definition twoChunks :: "(blob \<times> (error + api_transcription)) list" where
  "twoChunks =
     [([1, 2, 3], Inr \<lparr>api_text = ''hello there'',
         api_segments = Some [mkSegment 0 0 (5 / 2) ''hello'', mkSegment 1 (5 / 2) 4 ''there'']\<rparr>),
      ([4, 5], Inr \<lparr>api_text = ''world'',
         api_segments = Some [mkSegment 0 (1 / 2) (3 / 2) ''world'']\<rparr>)]"

text \<open>
  The lowercase conversion on texts of ASCII characters, and one that also knows the
  lowercase of two Greek texts: the word \<open>odos\<close> in capitals (omicron, delta, omicron,
  sigma; its lowercase ends in the final form of sigma) and the single capital sigma
  (its lowercase is the non-final form). Both agree with \<open>String.prototype.toLowerCase\<close>
  on every text they are applied to below.
\<close>

definition asciiLowerOf :: "string \<Rightarrow> string" where
  "asciiLowerOf s = map asciiLower s"
















section \<open>Rounding to doubles is monotone and idempotent\<close>

lemma roundTiesToEven_of_int: "roundTiesToEven (of_int n) = n"
  by (simp add: roundTiesToEven_def)

lemma roundTiesToEven_floor: "\<lfloor>q\<rfloor> \<le> roundTiesToEven q \<and> roundTiesToEven q \<le> \<lfloor>q\<rfloor> + 1"
  by (simp add: roundTiesToEven_def Let_def)

lemma roundTiesToEven_mono:
  assumes "q \<le> r"
  shows "roundTiesToEven q \<le> roundTiesToEven r"
proof -
  have le: "\<lfloor>q\<rfloor> \<le> \<lfloor>r\<rfloor>" using assms by (rule floor_mono)
  show ?thesis
  proof (cases "\<lfloor>q\<rfloor> < \<lfloor>r\<rfloor>")
    case True
    have "roundTiesToEven q \<le> \<lfloor>q\<rfloor> + 1" using roundTiesToEven_floor by blast
    also have "\<dots> \<le> \<lfloor>r\<rfloor>" using True by simp
    also have "\<dots> \<le> roundTiesToEven r" using roundTiesToEven_floor by blast
    finally show ?thesis .
  next
    case False
    with le have eq: "\<lfloor>q\<rfloor> = \<lfloor>r\<rfloor>" by simp
    with assms have "q - of_int \<lfloor>q\<rfloor> \<le> r - of_int \<lfloor>r\<rfloor>" by simp
    then show ?thesis
      unfolding roundTiesToEven_def Let_def eq by (simp split: if_splits)
  qed
qed

lemma ilog2_bounds:
  assumes "x \<noteq> 0"
  shows "2 powi ilog2 x \<le> \<bar>x\<bar> \<and> \<bar>x\<bar> < 2 powi (ilog2 x + 1)"
proof -
  obtain p q where pq: "quotient_of \<bar>x\<bar> = (p, q)" by (cases "quotient_of \<bar>x\<bar>")
  then have q: "0 < q" and x: "\<bar>x\<bar> = of_int p / of_int q"
    using quotient_of_denom_pos quotient_of_div by blast+
  have p: "0 < p"
  proof -
    have "0 < \<bar>x\<bar>" using assms by simp
    then have "0 < (of_int p :: rat) / of_int q" using x by simp
    then show ?thesis using q by (simp add: zero_less_divide_iff)
  qed
  define bp where "bp = bitlen p"
  define bq where "bq = bitlen q"
  have bp1: "1 \<le> bp" and bq1: "1 \<le> bq"
    using p q by (auto simp: bp_def bq_def bitlen_alt_def)
  have pb: "2 ^ nat (bp - 1) \<le> p" "p < 2 ^ nat bp"
    using bitlen_bounds [OF p] by (auto simp: bp_def)
  have qb: "2 ^ nat (bq - 1) \<le> q" "q < 2 ^ nat bq"
    using bitlen_bounds [OF q] by (auto simp: bq_def)
  have P1: "(2::rat) powi (bp - 1) \<le> of_int p"
  proof -
    have "(of_int (2 ^ nat (bp - 1)) :: rat) \<le> of_int p" using pb(1) by (simp only: of_int_le_iff)
    then show ?thesis using bp1 by (simp add: power_int_nonneg_exp)
  qed
  have P2: "of_int p < (2::rat) powi bp"
  proof -
    have "(of_int p :: rat) < of_int (2 ^ nat bp)" using pb(2) by (simp only: of_int_less_iff)
    then show ?thesis using bp1 by (simp add: power_int_nonneg_exp)
  qed
  have Q1: "(2::rat) powi (bq - 1) \<le> of_int q"
  proof -
    have "(of_int (2 ^ nat (bq - 1)) :: rat) \<le> of_int q" using qb(1) by (simp only: of_int_le_iff)
    then show ?thesis using bq1 by (simp add: power_int_nonneg_exp)
  qed
  have Q2: "of_int q < (2::rat) powi bq"
  proof -
    have "(of_int q :: rat) < of_int (2 ^ nat bq)" using qb(2) by (simp only: of_int_less_iff)
    then show ?thesis using bq1 by (simp add: power_int_nonneg_exp)
  qed
  have qpos: "(0::rat) < of_int q" using q by simp
  have lo: "(2::rat) powi (bp - bq - 1) < \<bar>x\<bar>"
  proof -
    have "(2::rat) powi (bp - bq - 1) * of_int q < 2 powi (bp - bq - 1) * 2 powi bq"
      using Q2 by simp
    also have "\<dots> = 2 powi (bp - 1)"
      by (simp add: power_int_add [symmetric])
    also have "\<dots> \<le> of_int p" by (rule P1)
    finally show ?thesis using qpos by (simp add: x pos_less_divide_eq)
  qed
  have hi: "\<bar>x\<bar> < (2::rat) powi (bp - bq + 1)"
  proof -
    have "of_int p < (2::rat) powi bp" by (rule P2)
    also have "\<dots> = 2 powi (bp - bq + 1) * 2 powi (bq - 1)"
      by (simp add: power_int_add [symmetric])
    also have "\<dots> \<le> 2 powi (bp - bq + 1) * of_int q"
      using Q1 by simp
    finally show ?thesis using qpos by (simp add: x pos_divide_less_eq)
  qed
  show ?thesis
    using lo hi by (simp add: ilog2_def pq bp_def bq_def Let_def)
qed


lemma pow2_exp_less:
  assumes "(2::rat) powi a \<le> x" and "x < 2 powi b"
  shows "a < b"
proof (rule ccontr)
  assume "\<not> a < b"
  then have "b \<le> a" by simp
  then have "(2::rat) powi b \<le> 2 powi a" by (intro power_int_increasing) simp_all
  with assms show False by simp
qed

lemma ilog2_mono:
  assumes "0 < x" and "x \<le> y"
  shows "ilog2 x \<le> ilog2 y"
proof -
  have "2 powi ilog2 x \<le> x" using ilog2_bounds [of x] assms by simp
  also have "x \<le> y" by fact
  finally have "2 powi ilog2 x \<le> y" .
  moreover have "y < 2 powi (ilog2 y + 1)" using ilog2_bounds [of y] assms by simp
  ultimately have "ilog2 x < ilog2 y + 1" by (rule pow2_exp_less)
  then show ?thesis by simp
qed

lemma ulpExp_mono: "0 < x \<Longrightarrow> x \<le> y \<Longrightarrow> ulpExp x \<le> ulpExp y"
  using ilog2_mono [of x y] by (simp add: ulpExp_def)

lemma scaled_less:
  assumes "0 < x"
  shows "x / 2 powi ulpExp x < 2 ^ 53"
proof -
  have "x < 2 powi (ilog2 x + 1)" using ilog2_bounds [of x] assms by simp
  also have "\<dots> \<le> 2 powi (ulpExp x + 53)"
    by (intro power_int_increasing) (simp_all add: ulpExp_def)
  also have "\<dots> = 2 ^ 53 * 2 powi ulpExp x"
    by (simp add: power_int_add)
  finally show ?thesis by (simp add: pos_divide_less_eq)
qed

lemma scaled_ge:
  assumes "0 < x" and "ulpExp x = ilog2 x - 52"
  shows "2 ^ 52 \<le> x / 2 powi ulpExp x"
proof -
  have "(2::rat) ^ 52 * 2 powi ulpExp x = 2 powi (ilog2 x)"
    by (simp add: assms(2) power_int_diff)
  also have "\<dots> \<le> x" using ilog2_bounds [of x] assms by simp
  finally show ?thesis by (simp add: pos_le_divide_eq)
qed

lemma toDouble_zero: "toDouble 0 = 0"
  by (simp add: toDouble_def roundTiesToEven_def)

lemma toDouble_nonneg:
  assumes "0 \<le> x"
  shows "0 \<le> toDouble x"
proof -
  have "0 \<le> x / 2 powi ulpExp x" using assms by simp
  then have "0 \<le> \<lfloor>x / 2 powi ulpExp x\<rfloor>" by simp
  then have "0 \<le> roundTiesToEven (x / 2 powi ulpExp x)"
    using roundTiesToEven_floor [of "x / 2 powi ulpExp x"] by linarith
  then show ?thesis by (simp add: toDouble_def)
qed

lemma toDouble_upper:
  assumes "0 < x"
  shows "toDouble x \<le> 2 ^ 53 * 2 powi ulpExp x"
proof -
  have "x / 2 powi ulpExp x \<le> of_int (2 ^ 53)"
    using scaled_less [OF assms] by simp
  then have "roundTiesToEven (x / 2 powi ulpExp x) \<le> roundTiesToEven (of_int (2 ^ 53))"
    by (rule roundTiesToEven_mono)
  then have "roundTiesToEven (x / 2 powi ulpExp x) \<le> 2 ^ 53"
    by (simp only: roundTiesToEven_of_int)
  then have "(of_int (roundTiesToEven (x / 2 powi ulpExp x)) :: rat) \<le> of_int (2 ^ 53)"
    by (simp only: of_int_le_iff)
  then show ?thesis by (simp add: toDouble_def)
qed

lemma toDouble_lower:
  assumes "0 < x" and "ulpExp x = ilog2 x - 52"
  shows "2 ^ 52 * 2 powi ulpExp x \<le> toDouble x"
proof -
  have "of_int (2 ^ 52) \<le> x / 2 powi ulpExp x"
    using scaled_ge [OF assms] by simp
  then have "roundTiesToEven (of_int (2 ^ 52)) \<le> roundTiesToEven (x / 2 powi ulpExp x)"
    by (rule roundTiesToEven_mono)
  then have "2 ^ 52 \<le> roundTiesToEven (x / 2 powi ulpExp x)"
    by (simp only: roundTiesToEven_of_int)
  then have "(of_int (2 ^ 52) :: rat) \<le> of_int (roundTiesToEven (x / 2 powi ulpExp x))"
    by (simp only: of_int_le_iff)
  then show ?thesis by (simp add: toDouble_def)
qed

lemma toDouble_mono:
  assumes "0 \<le> x" and "x \<le> y"
  shows "toDouble x \<le> toDouble y"
proof (cases "x = 0")
  case True
  then show ?thesis using assms toDouble_nonneg [of y] by (simp add: toDouble_zero)
next
  case False
  with assms have x: "0 < x" and y: "0 < y" by simp_all
  have le: "ulpExp x \<le> ulpExp y" using x assms(2) by (rule ulpExp_mono)
  show ?thesis
  proof (cases "ulpExp x = ulpExp y")
    case True
    have "x / 2 powi ulpExp y \<le> y / 2 powi ulpExp y"
      using assms(2) by (simp add: divide_right_mono)
    then have "roundTiesToEven (x / 2 powi ulpExp y) \<le> roundTiesToEven (y / 2 powi ulpExp y)"
      by (rule roundTiesToEven_mono)
    then show ?thesis by (simp add: toDouble_def True)
  next
    case False
    with le have lt: "ulpExp x < ulpExp y" by simp
    then have n: "ulpExp y = ilog2 y - 52" by (auto simp: ulpExp_def max_def split: if_splits)
    have "toDouble x \<le> 2 ^ 53 * 2 powi ulpExp x" using x by (rule toDouble_upper)
    also have "\<dots> = 2 ^ 52 * 2 powi (ulpExp x + 1)"
      by (simp add: power_int_add)
    also have "\<dots> \<le> 2 ^ 52 * 2 powi ulpExp y"
      using lt by (intro mult_left_mono power_int_increasing) simp_all
    also have "\<dots> \<le> toDouble y" using y n by (rule toDouble_lower)
    finally show ?thesis .
  qed
qed


lemma mantissa_le:
  assumes "0 < x"
  shows "roundTiesToEven (x / 2 powi ulpExp x) \<le> 2 ^ 53"
proof -
  have "x / 2 powi ulpExp x \<le> of_int (2 ^ 53)"
    using scaled_less [OF assms] by simp
  then have "roundTiesToEven (x / 2 powi ulpExp x) \<le> roundTiesToEven (of_int (2 ^ 53))"
    by (rule roundTiesToEven_mono)
  then show ?thesis by (simp only: roundTiesToEven_of_int)
qed

lemma toDouble_fixed:
  assumes "x / 2 powi ulpExp x = of_int m"
  shows "toDouble x = x"
proof -
  have "toDouble x = of_int m * 2 powi ulpExp x"
    by (simp add: toDouble_def assms roundTiesToEven_of_int)
  also have "\<dots> = x" using assms [symmetric] by simp
  finally show ?thesis .
qed

lemma ulpExp_ge: "- 1074 \<le> ulpExp x"
  by (simp add: ulpExp_def)

lemma ulpExp_le:
  assumes "0 < d" and "d < 2 powi (e + 53)" and "- 1074 \<le> e"
  shows "ulpExp d \<le> e"
proof -
  have "2 powi ilog2 d \<le> d" using ilog2_bounds [of d] assms(1) by simp
  from pow2_exp_less [OF this assms(2)] show ?thesis
    using assms(3) by (simp add: ulpExp_def)
qed

lemma toDouble_idem:
  assumes "0 \<le> x"
  shows "toDouble (toDouble x) = toDouble x"
proof -
  define e where "e = ulpExp x"
  define m where "m = roundTiesToEven (x / 2 powi e)"
  define d where "d = toDouble x"
  have d: "d = of_int m * 2 powi e" by (simp add: d_def toDouble_def m_def e_def)
  have e: "- 1074 \<le> e" by (simp add: e_def ulpExp_ge)
  have m0: "0 \<le> m"
  proof -
    have "0 \<le> x / 2 powi e" using assms by simp
    then have "0 \<le> \<lfloor>x / 2 powi e\<rfloor>" by simp
    moreover have "\<lfloor>x / 2 powi e\<rfloor> \<le> roundTiesToEven (x / 2 powi e)"
      using roundTiesToEven_floor by blast
    ultimately show ?thesis unfolding m_def by linarith
  qed
  show ?thesis
  proof (cases "m = 0")
    case True
    then have "d = 0" by (simp add: d)
    then show ?thesis by (simp add: d_def [symmetric] toDouble_zero)
  next
    case False
    with m0 have mpos: "0 < m" by simp
    have xpos: "0 < x"
    proof (rule ccontr)
      assume "\<not> 0 < x"
      with assms have "x = 0" by simp
      then have "m = 0" by (simp add: m_def roundTiesToEven_def)
      with False show False by simp
    qed
    have dpos: "0 < d" using mpos by (simp add: d)
    have mle: "m \<le> 2 ^ 53" using mantissa_le [OF xpos] by (simp add: m_def e_def)
    show ?thesis
    proof (cases "m = 2 ^ 53")
      case True
      have dval: "d = 2 powi (e + 53)" by (simp add: d True power_int_add)
      have lo: "2 powi ilog2 d \<le> d" and hi: "d < 2 powi (ilog2 d + 1)"
        using ilog2_bounds [of d] dpos by simp_all
      have a: "d < 2 powi (e + 53 + 1)"
        unfolding dval by (intro power_int_strict_increasing) simp_all
      have b: "2 powi (e + 53) \<le> d" by (simp add: dval)
      have "ilog2 d < e + 53 + 1" using lo a by (rule pow2_exp_less)
      moreover have "e + 53 < ilog2 d + 1" using b hi by (rule pow2_exp_less)
      ultimately have "ilog2 d = e + 53" by simp
      then have ue: "ulpExp d = e + 1" using e by (simp add: ulpExp_def)
      have "d / 2 powi ulpExp d = d / 2 powi (e + 1)" by (simp only: ue)
      also have "\<dots> = 2 powi (e + 53) / 2 powi (e + 1)" by (simp only: dval)
      also have "\<dots> = 2 powi (52 + (e + 1)) / 2 powi (e + 1)" by (simp add: add.commute)
      also have "\<dots> = (2 powi 52 * 2 powi (e + 1)) / 2 powi (e + 1)"
        by (subst power_int_add) simp_all
      also have "\<dots> = of_int (2 ^ 52)" by simp
      finally have "toDouble d = d" by (rule toDouble_fixed)
      then show ?thesis by (simp add: d_def)
    next
      case False
      with mle have "m < 2 ^ 53" by simp
      then have "(of_int m :: rat) < of_int (2 ^ 53)" by (simp only: of_int_less_iff)
      then have "of_int m * 2 powi e < (2::rat) ^ 53 * 2 powi e" by simp
      also have "\<dots> = 2 powi (e + 53)" by (simp add: power_int_add)
      finally have "d < 2 powi (e + 53)" by (simp add: d)
      from ulpExp_le [OF dpos this e] have le: "ulpExp d \<le> e" .
      have "d / 2 powi ulpExp d = of_int m * 2 powi (e - ulpExp d)"
        by (simp add: d power_int_diff)
      also have "\<dots> = of_int m * of_int (2 ^ nat (e - ulpExp d))"
        using le by (simp add: power_int_nonneg_exp)
      also have "\<dots> = of_int (m * 2 ^ nat (e - ulpExp d))" by simp
      finally have "toDouble d = d" by (rule toDouble_fixed)
      then show ?thesis by (simp add: d_def)
    qed
  qed
qed


section \<open>Round trip of the serialization adapter\<close>

lemma toISOString_valid: "validDate d \<Longrightarrow> \<exists>t. d = JsDate t \<and> toISOString d = Inr (IsoString t)"
  by (cases d) (simp_all add: validDate_def)

lemma summary_roundtrip:
  assumes "validDate (generatedAt s)"
  shows "\<exists>sdb. summaryToDB s = Inr sdb \<and> dbToSummary sdb = s"
proof -
  from assms obtain t where "generatedAt s = JsDate t"
    by (cases "generatedAt s") (simp_all add: validDate_def)
  then show ?thesis
    by (simp add: summaryToDB_def dbToSummary_def)
qed

lemma optSummary_roundtrip:
  assumes "case so of None \<Rightarrow> True | Some s \<Rightarrow> validDate (generatedAt s)"
  shows "\<exists>sdb. optSummaryToDB so = Inr sdb \<and> map_option dbToSummary sdb = so"
proof (cases so)
  case None
  then show ?thesis by (simp add: optSummaryToDB_def)
next
  case (Some s)
  with assms have "validDate (generatedAt s)" by simp
  from summary_roundtrip [OF this] obtain sdb
    where "summaryToDB s = Inr sdb" "dbToSummary sdb = s" by blast
  with Some show ?thesis by (simp add: optSummaryToDB_def)
qed

text \<open>
  C3. For every Meeting with valid Date fields, \<open>meetingToDB\<close> succeeds and
  \<open>dbToMeeting\<close> of its result equals the meeting in every field (the nested summary
  and its \<open>generatedAt\<close> included), except that the audio of an archived meeting comes
  back as the empty Blob whatever it was.
\<close>

theorem meeting_roundtrip:
  assumes "validDates m"
  shows "\<exists>db. meetingToDB m = Inr db \<and>
           dbToMeeting db = m\<lparr>audioBlob := (if archived m then [] else audioBlob m)\<rparr>"
proof -
  from assms obtain d c u where dates:
    "date m = JsDate d" "createdAt m = JsDate c" "updatedAt m = JsDate u"
    unfolding validDates_def using toISOString_valid by blast
  from assms have "case summary m of None \<Rightarrow> True | Some s \<Rightarrow> validDate (generatedAt s)"
    by (simp add: validDates_def)
  from optSummary_roundtrip [OF this] obtain sdb
    where sdb: "optSummaryToDB (summary m) = Inr sdb" "map_option dbToSummary sdb = summary m"
    by blast
  show ?thesis
    using dates sdb by (simp add: meetingToDB_def dbToMeeting_def)
qed

theorem meeting_roundtrip_witness:
  "validDates sampleMeeting \<and>
   (\<exists>db. meetingToDB sampleMeeting = Inr db \<and>
      dbToMeeting db = sampleMeeting\<lparr>audioBlob := []\<rparr> \<and>
      audioBlob (dbToMeeting db) \<noteq> audioBlob sampleMeeting)"
proof -
  have v: "validDates sampleMeeting"
    by (simp add: validDates_def validDate_def sampleMeeting_def sampleSummary_def)
  have a: "archived sampleMeeting" "audioBlob sampleMeeting \<noteq> []"
    by (simp_all add: sampleMeeting_def)
  from meeting_roundtrip [OF v] a v show ?thesis by auto
qed


section \<open>Object store laws\<close>

lemma find_insort_key_other: "\<not> P x \<Longrightarrow> find P (insort_key f x xs) = find P xs"
  by (induction xs) simp_all

lemma find_insort_key_new:
  "P x \<Longrightarrow> find P xs = None \<Longrightarrow> find P (insort_key f x xs) = Some x"
  by (induction xs) (simp_all split: if_splits)

lemma find_filter_keep: "(\<And>x. P x \<Longrightarrow> Q x) \<Longrightarrow> find P (filter Q xs) = find P xs"
  by (induction xs) auto

lemma find_filter_none: "(\<And>x. P x \<Longrightarrow> \<not> Q x) \<Longrightarrow> find P (filter Q xs) = None"
  by (induction xs) auto

lemma os_get_put:
  "os_get keyPath (os_put keyPath r rs) k = (if k = keyPath r then Some r else os_get keyPath rs k)"
proof (cases "k = keyPath r")
  case True
  have "find (\<lambda>x. keyPath x = keyPath r) (filter (\<lambda>x. keyPath x \<noteq> keyPath r) rs) = None"
    by (rule find_filter_none) simp
  then show ?thesis
    using True by (simp add: os_get_def os_put_def find_insort_key_new)
next
  case False
  have "find (\<lambda>x. keyPath x = k) (filter (\<lambda>x. keyPath x \<noteq> keyPath r) rs) = find (\<lambda>x. keyPath x = k) rs"
    by (rule find_filter_keep) (use False in auto)
  then show ?thesis
    using False by (simp add: os_get_def os_put_def find_insort_key_other)
qed

lemma os_get_key: "os_get keyPath rs k = Some r \<Longrightarrow> keyPath r = k"
  by (auto simp: os_get_def find_Some_iff)

lemma os_get_delete:
  "os_get keyPath (os_delete keyPath k rs) j = (if j = k then None else os_get keyPath rs j)"
proof (cases "j = k")
  case True
  then show ?thesis by (simp add: os_get_def os_delete_def find_filter_none)
next
  case False
  have "find (\<lambda>x. keyPath x = j) (filter (\<lambda>x. keyPath x \<noteq> k) rs) = find (\<lambda>x. keyPath x = j) rs"
    by (rule find_filter_keep) (use False in auto)
  then show ?thesis using False by (simp add: os_get_def os_delete_def)
qed

lemma override_None [simp]: "override None old = old"
  by (simp add: override_def)

lemma override_Some [simp]: "override (Some v) old = v"
  by (simp add: override_def)

text \<open>
  C6. For a meeting stored under \<open>i\<close>, \<open>updateMeeting(i, {title: X})\<close> succeeds and the
  record stored under \<open>i\<close> afterwards is the old one with \<open>title\<close> set to \<open>X\<close> and
  \<open>updatedAt\<close> set to the current time: date, duration, audio, transcript, summary,
  speakers, tags, category, archived and createdAt keep their values. Every other
  meeting and the cost records are untouched.
\<close>

theorem updateMeeting_title_only:
  assumes "os_get meeting_id (meetings s) i = Some existing"
  shows "\<exists>s'. updateMeeting i (noUpdates\<lparr>u_title := Some X\<rparr>) now s = Inr s' \<and>
           os_get meeting_id (meetings s') i =
             Some (existing\<lparr>title := X, updatedAt := IsoString now\<rparr>) \<and>
           (\<forall>j. j \<noteq> i \<longrightarrow> os_get meeting_id (meetings s') j = os_get meeting_id (meetings s) j) \<and>
           costs s' = costs s"
proof -
  have k: "meeting_id existing = i" using assms by (rule os_get_key)
  show ?thesis
    using assms k
    by (simp add: updateMeeting_def noUpdates_def optToISOString_def optSummaryToDB_def os_get_put)
qed


section \<open>The sample stores are reachable\<close>

lemma activeStore_saved: "saveMeeting activeMeeting emptyStore = Inr activeStore"
  by (simp add: activeStore_def activeMeetingDB_def saveMeeting_def meetingToDB_def
      activeMeeting_def sampleMeeting_def optSummaryToDB_def summaryToDB_def
      sampleSummary_def sampleSummaryDB_def emptyStore_def os_put_def)

lemma activeStore_get: "os_get meeting_id (meetings activeStore) ''m1'' = Some activeMeetingDB"
  by (simp add: activeStore_def os_get_def activeMeetingDB_def)

lemma flaggedStore_updated:
  "updateMeeting ''m1'' archivedOnly 1735689800000 activeStore = Inr flaggedStore"
  by (simp add: updateMeeting_def activeStore_get archivedOnly_def noUpdates_def
      optToISOString_def optSummaryToDB_def flaggedStore_def)
     (simp add: activeStore_def os_put_def activeMeetingDB_def)

section \<open>Archive invariant\<close>

text \<open>
  C1. The invariant "archived implies empty audio" does not survive
  \<open>updateMeeting(id, {archived: true})\<close>: saving a meeting with four bytes of audio and
  then setting only the archived flag leaves a stored meeting that is archived and still
  holds the four bytes.
\<close>

theorem updateMeeting_archived_keeps_audio:
  "saveMeeting activeMeeting emptyStore = Inr activeStore \<and>
   updateMeeting ''m1'' archivedOnly 1735689800000 activeStore = Inr flaggedStore \<and>
   map_option (\<lambda>m. (archived m, audioBlob m)) (getMeeting ''m1'' flaggedStore) =
     Some (True, [82, 73, 70, 70])"
  by (simp add: activeStore_saved flaggedStore_updated)
     (simp add: getMeeting_def flaggedStore_def os_get_def activeMeetingDB_def dbToMeeting_def)

section \<open>Search\<close>

lemma str_includes_sublist: "str_includes s q \<longleftrightarrow> sublist q s"
  by (induction s) (simp_all add: sublist_Cons_right)

lemma str_includes_Nil: "str_includes s []"
  by (simp add: str_includes_sublist)

lemma toLowerCase_Nil: "toLowerCase lowerOf [] = []"
  by (simp add: toLowerCase_def)

lemma set_getAllMeetings: "set (getAllMeetings s) = dbToMeeting ` set (meetings s)"
  by (simp add: getAllMeetings_def sortNewestFirst_def getAllFromIndex_by_date_def)







lemma activeStore_convert: "dbToMeeting activeMeetingDB = activeMeeting"
  by (simp add: dbToMeeting_def activeMeetingDB_def activeMeeting_def sampleMeeting_def
      dbToSummary_def sampleSummary_def sampleSummaryDB_def)




text \<open>
  C10. For every store, \<open>searchMeetings\<close> with the empty string as query returns the same
  list as \<open>getAllMeetings\<close>, in the same order.
\<close>

theorem searchMeetings_empty_query: "searchMeetings lowerOf [] s = getAllMeetings s"
  by (simp add: searchMeetings_def matchesQuery_def toLowerCase_Nil str_includes_Nil)

lemma twoStore_all:
  "getAllMeetings twoStore = [dbToMeeting activeMeetingDB, dbToMeeting olderMeetingDB]"
  by code_simp

theorem searchMeetings_empty_query_witness:
  "searchMeetings asciiLowerOf [] twoStore =
     [dbToMeeting activeMeetingDB, dbToMeeting olderMeetingDB]"
  using searchMeetings_empty_query [of asciiLowerOf twoStore] by (simp add: twoStore_all)

section \<open>Update isolation, on the sample store\<close>

theorem updateMeeting_title_only_witness:
  "os_get meeting_id (meetings activeStore) ''m1'' = Some activeMeetingDB \<and>
   (\<exists>s'. updateMeeting ''m1'' (noUpdates\<lparr>u_title := Some ''Kickoff''\<rparr>) 1735689800000
            activeStore = Inr s' \<and>
      os_get meeting_id (meetings s') ''m1'' =
        Some (activeMeetingDB\<lparr>title := ''Kickoff'', updatedAt := IsoString 1735689800000\<rparr>))"
  using updateMeeting_title_only [OF activeStore_get, of "''Kickoff''" 1735689800000]
    activeStore_get
  by blast


section \<open>Import\<close>

lemma toISOString_newDate: "toISOString (newDate t) = Inr t"
  by (cases t) simp

lemma summaryToDB_dbToSummary: "summaryToDB (dbToSummary sdb) = Inr sdb"
  by (simp add: summaryToDB_def dbToSummary_def toISOString_newDate)

lemma optSummaryToDB_dbToSummary: "optSummaryToDB (map_option dbToSummary so) = Inr so"
  by (cases so) (simp_all add: optSummaryToDB_def summaryToDB_dbToSummary)


lemma parseDate_isoText: "parseDate (isoText d) = newDate d"
  by (cases d) simp

lemma parse_written_summary:
  "map_option (withGeneratedAt parseDate) (map_option (withGeneratedAt isoText) so) =
     map_option dbToSummary so"
  by (cases so) (simp_all add: withGeneratedAt_def dbToSummary_def parseDate_isoText)


lemma import_store:
  assumes "metadata_json zipBlob = Some (JSON_stringify em)"
    and "getMeeting (md_id (metadata em)) s = None \<or> onDuplicate = Replace"
  shows "importMeeting zipBlob onDuplicate uuid s =
           Inr (md_id (metadata em),
                s\<lparr>meetings := os_put meeting_id
                     (importedContent zipBlob em (md_id (metadata em))) (meetings s)\<rparr>)"
  using assms
  by (auto simp: importMeeting_def JSON_stringify_def asText_def Let_def saveMeeting_def
        meetingToDB_def parseDate_isoText parse_written_summary toISOString_newDate
        optSummaryToDB_dbToSummary importedContent_def split: option.splits)






section \<open>Writers that keep the archive invariant\<close>

text \<open>
  \<open>saveMeeting\<close>, \<open>archiveMeeting\<close>, \<open>deleteMeeting\<close> and \<open>importMeeting\<close> keep the invariant
  that an archived meeting has empty audio; the store reached through
  \<open>updateMeeting(id, {archived: true})\<close> breaks it.
\<close>

lemma set_os_put: "set (os_put keyPath r rs) \<subseteq> insert r (set rs)"
  by (auto simp: os_put_def set_insort_key)

lemma set_os_delete: "set (os_delete keyPath k rs) \<subseteq> set rs"
  by (auto simp: os_delete_def)

lemma archiveInvariant_put:
  assumes "archiveInvariant s" and "audioEmptyIfArchived (dbToMeeting r)"
  shows "archiveInvariant (s\<lparr>meetings := os_put meeting_id r (meetings s)\<rparr>)"
  using assms set_os_put [of meeting_id r "meetings s"]
  by (auto simp: archiveInvariant_def list_all_iff)

lemma meetingToDB_invariant:
  "meetingToDB m = Inr r \<Longrightarrow> audioEmptyIfArchived (dbToMeeting r)"
  by (auto simp: meetingToDB_def dbToMeeting_def audioEmptyIfArchived_def split: sum.splits)

lemma saveMeeting_invariant:
  assumes "saveMeeting m s = Inr s'" and "archiveInvariant s"
  shows "archiveInvariant s'"
proof -
  from assms(1) obtain r where r: "meetingToDB m = Inr r"
    and s': "s' = s\<lparr>meetings := os_put meeting_id r (meetings s)\<rparr>"
    by (auto simp: saveMeeting_def split: sum.splits)
  show ?thesis
    unfolding s' using assms(2) meetingToDB_invariant [OF r] by (rule archiveInvariant_put)
qed

lemma archiveMeeting_invariant:
  assumes "archiveMeeting i now s = Inr s'" and "archiveInvariant s"
  shows "archiveInvariant s'"
proof -
  from assms(1) obtain existing where
    s': "s' = s\<lparr>meetings := os_put meeting_id
           (existing\<lparr>archived := True, audioBlob := Some [], updatedAt := IsoString now\<rparr>)
           (meetings s)\<rparr>"
    by (auto simp: archiveMeeting_def updateMeeting_def noUpdates_def optToISOString_def
          optSummaryToDB_def split: option.splits)
  show ?thesis
    unfolding s' using assms(2)
    by (rule archiveInvariant_put) (simp add: audioEmptyIfArchived_def dbToMeeting_def)
qed

lemma deleteMeeting_invariant: "archiveInvariant s \<Longrightarrow> archiveInvariant (deleteMeeting i s)"
  using set_os_delete [of meeting_id i "meetings s"]
  by (auto simp: archiveInvariant_def deleteMeeting_def list_all_iff)

lemma importMeeting_invariant:
  assumes "importMeeting zipBlob onDuplicate uuid s = Inr (i, s')" and "archiveInvariant s"
  shows "archiveInvariant s'"
proof -
  have "s' = s \<or> (\<exists>m. saveMeeting m s = Inr s')"
    using assms(1)
    by (auto simp: importMeeting_def Let_def split: option.splits json_text.splits sum.splits if_splits)
  then show ?thesis using assms(2) saveMeeting_invariant by blast
qed

lemma activeStore_invariant: "archiveInvariant activeStore"
  by (simp add: archiveInvariant_def activeStore_def audioEmptyIfArchived_def dbToMeeting_def
      activeMeetingDB_def)

lemma flaggedStore_breaks_invariant: "\<not> archiveInvariant flaggedStore"
  by (simp add: archiveInvariant_def flaggedStore_def audioEmptyIfArchived_def dbToMeeting_def
      activeMeetingDB_def)


section \<open>Export followed by import\<close>

lemma exportedMetadata_dbToMeeting:
  "exportedMetadata (dbToMeeting r) =
     Inr \<lparr>metadata = \<lparr>md_id = meeting_id r, md_title = title r, md_date = date r,
             md_duration = duration r, md_speakers = speakers r, md_tags = tags r,
             md_category = category r, md_archived = archived r,
             md_createdAt = createdAt r, md_updatedAt = updatedAt r\<rparr>,
           em_transcript = transcript r, em_summary = summary r,
           hasAudio = (\<not> archived r \<and> length (audioBlob (dbToMeeting r)) > 0)\<rparr>"
  by (simp add: exportedMetadata_def dbToMeeting_def toISOString_newDate optSummaryToDB_dbToSummary)

lemma export_import_replace:
  assumes "os_get meeting_id (meetings s) i = Some r"
  shows "\<exists>z s'. exportMeeting i s = Inr z \<and> importMeeting z Replace uuid s = Inr (i, s') \<and>
           getMeeting i s' =
             Some ((dbToMeeting r)\<lparr>audioBlob := (if archived r then [] else audioBlob (dbToMeeting r))\<rparr>) \<and>
           (\<forall>j. j \<noteq> i \<longrightarrow> getMeeting j s' = getMeeting j s)"
proof -
  define em where "em = \<lparr>metadata = \<lparr>md_id = meeting_id r, md_title = title r, md_date = date r,
             md_duration = duration r, md_speakers = speakers r, md_tags = tags r,
             md_category = category r, md_archived = archived r,
             md_createdAt = createdAt r, md_updatedAt = updatedAt r\<rparr>,
           em_transcript = transcript r, em_summary = summary r,
           hasAudio = (\<not> archived r \<and> length (audioBlob (dbToMeeting r)) > 0)\<rparr>"
  define z where "z = \<lparr>audio_webm = (if \<not> archived r \<and> length (audioBlob (dbToMeeting r)) > 0
                      then Some (audioBlob (dbToMeeting r)) else None),
                   metadata_json = Some (JSON_stringify em)\<rparr>"
  have k: "meeting_id r = i" using assms by (rule os_get_key)
  have a: "archived (dbToMeeting r) = archived r" by (simp add: dbToMeeting_def)
  have ex: "exportMeeting i s = Inr z"
    using assms by (simp add: exportMeeting_def getMeeting_def exportedMetadata_dbToMeeting em_def z_def a)
  have mj: "metadata_json z = Some (JSON_stringify em)" by (simp add: z_def)
  have mi: "md_id (metadata em) = i" by (simp add: em_def k)
  have im: "importMeeting z Replace uuid s =
      Inr (md_id (metadata em),
           s\<lparr>meetings := os_put meeting_id (importedContent z em (md_id (metadata em))) (meetings s)\<rparr>)"
    using mj by (rule import_store) simp
  have ic: "dbToMeeting (importedContent z em i) =
      (dbToMeeting r)\<lparr>audioBlob := (if archived r then [] else audioBlob (dbToMeeting r))\<rparr>"
    by (simp add: importedContent_def em_def z_def dbToMeeting_def k)
  have ki: "meeting_id (importedContent z em i) = i" by (simp add: importedContent_def)
  show ?thesis
    using ex im ic by (auto simp: mi getMeeting_def os_get_put ki)
qed

text \<open>
  C2, as amended. For every stored meeting \<open>m\<close> that satisfies the archive invariant
  (archived implies empty audio), exporting \<open>m\<close> and importing the produced archive with
  policy replace succeeds, returns \<open>m\<close>'s id and leaves under that id a stored meeting
  equal to \<open>m\<close> in every field (\<open>updatedAt\<close> included); the other meetings are as before.
\<close>

theorem export_import_roundtrip:
  assumes "getMeeting i s = Some m" and "audioEmptyIfArchived m"
  shows "\<exists>z s'. exportMeeting i s = Inr z \<and> importMeeting z Replace uuid s = Inr (i, s') \<and>
           getMeeting i s' = Some m \<and> (\<forall>j. j \<noteq> i \<longrightarrow> getMeeting j s' = getMeeting j s)"
proof -
  from assms(1) obtain r where r: "os_get meeting_id (meetings s) i = Some r" "m = dbToMeeting r"
    by (auto simp: getMeeting_def)
  have "archived m = archived r" by (simp add: r dbToMeeting_def)
  with assms(2) have "m\<lparr>audioBlob := (if archived r then [] else audioBlob m)\<rparr> = m"
    by (simp add: audioEmptyIfArchived_def)
  with export_import_replace [OF r(1), of uuid] r(2) show ?thesis by auto
qed

text \<open>
  C2 as stated fails on the store reached by \<open>updateMeeting(id, {archived: true})\<close>: the
  stored meeting is archived and holds four bytes of audio, the export leaves the audio
  out, and the meeting stored after the import has empty audio.
\<close>

theorem export_import_loses_audio:
  "exportMeeting ''m1'' flaggedStore = Inr flaggedZip \<and>
   importMeeting flaggedZip Replace ''m2'' flaggedStore = Inr (''m1'', reimportedStore) \<and>
   map_option audioBlob (getMeeting ''m1'' flaggedStore) = Some [82, 73, 70, 70] \<and>
   map_option audioBlob (getMeeting ''m1'' reimportedStore) = Some [] \<and>
   getMeeting ''m1'' reimportedStore \<noteq> getMeeting ''m1'' flaggedStore"
  by code_simp

lemma flaggedStore_reachable:
  "saveMeeting activeMeeting emptyStore = Inr activeStore \<and>
   updateMeeting ''m1'' archivedOnly 1735689800000 activeStore = Inr flaggedStore"
  by (simp add: activeStore_saved flaggedStore_updated)

theorem export_import_roundtrip_witness:
  "getMeeting ''m1'' activeStore = Some activeMeeting \<and> audioEmptyIfArchived activeMeeting \<and>
   (\<exists>z s'. exportMeeting ''m1'' activeStore = Inr z \<and>
      importMeeting z Replace ''m2'' activeStore = Inr (''m1'', s') \<and>
      getMeeting ''m1'' s' = Some activeMeeting)"
proof -
  have g: "getMeeting ''m1'' activeStore = Some activeMeeting"
    by (simp add: getMeeting_def activeStore_get activeStore_convert)
  have a: "audioEmptyIfArchived activeMeeting"
    by (simp add: audioEmptyIfArchived_def activeMeeting_def)
  from export_import_roundtrip [OF g a, of "''m2''"] g a show ?thesis by blast
qed

section \<open>Bulk export\<close>

lemma folderName_dbToMeeting: "\<exists>n. folderName lowerOf (dbToMeeting r) = Inr n"
  by (cases "date r") (simp add: folderName_def dbToMeeting_def)

lemma exportFolders_stored:
  "set ms \<subseteq> range dbToMeeting \<Longrightarrow> \<exists>fs'. exportFolders lowerOf ms fs = Inr fs'"
proof (induction ms arbitrary: fs)
  case Nil
  show ?case by simp
next
  case (Cons m ms)
  from Cons.prems obtain r where r: "m = dbToMeeting r" by auto
  obtain n where n: "folderName lowerOf (dbToMeeting r) = Inr n"
    using folderName_dbToMeeting by blast
  from Cons.prems have "set ms \<subseteq> range dbToMeeting" by simp
  from Cons.IH [OF this] show ?case
    by (simp add: r n exportedMetadata_dbToMeeting)
qed

lemma length_getAllMeetings: "length (getAllMeetings s) = length (meetings s)"
  by (simp add: getAllMeetings_def sortNewestFirst_def getAllFromIndex_by_date_def)

text \<open>
  C9. On a store with no meetings \<open>exportAllMeetings\<close> raises the error
  "No meetings to export" and returns no archive; on every store with at least one
  meeting it raises no error and returns an archive.
\<close>

theorem exportAllMeetings_empty:
  "(meetings s = [] \<longrightarrow>
      exportAllMeetings lowerOf now s = Inl (Error ''No meetings to export'')) \<and>
   (meetings s \<noteq> [] \<longrightarrow> (\<exists>z. exportAllMeetings lowerOf now s = Inr z))"
proof -
  have "set (getAllMeetings s) \<subseteq> range dbToMeeting"
    by (auto simp: set_getAllMeetings)
  from exportFolders_stored [OF this] obtain fs
    where fs: "exportFolders lowerOf (getAllMeetings s) [] = Inr fs" by blast
  have e: "getAllMeetings s = [] \<longleftrightarrow> meetings s = []"
    using length_getAllMeetings [of s] by (metis length_0_conv)
  show ?thesis
    using fs by (simp add: exportAllMeetings_def Let_def e)
qed

theorem exportAllMeetings_empty_witness:
  "exportAllMeetings asciiLowerOf 1735689900000 emptyStore =
     Inl (Error ''No meetings to export'') \<and>
   (\<exists>z. exportAllMeetings asciiLowerOf 1735689900000 twoStore = Inr z)"
  using exportAllMeetings_empty [of emptyStore asciiLowerOf 1735689900000]
    exportAllMeetings_empty [of twoStore asciiLowerOf 1735689900000]
  by (simp add: emptyStore_def twoStore_def)


section \<open>Cost ledger\<close>

lemma tenCents_sums:
  "js_add tenCents 0 = tenCents"
  "js_add 0 0 = 0"
  "js_add 1 1 = 2"
  "js_add 2 1 = 3"
  "js_add (js_add tenCents 0) tenCents = js_add tenCents tenCents"
  "js_add (js_add tenCents tenCents) 0 = js_add tenCents tenCents"
  "js_add (js_add (js_add tenCents tenCents) tenCents) 0 = js_add (js_add tenCents tenCents) tenCents"
  "js_add (js_add tenCents tenCents) tenCents = 5404319552844596 / 2 ^ 54"
  "js_add (5404319552844596 / 2 ^ 54) 0 = 5404319552844596 / 2 ^ 54"
  by code_simp+

lemma same_month_key:
  "fullYear c2 = fullYear c1 \<Longrightarrow> monthIndex c2 = monthIndex c1 \<Longrightarrow> monthKey c2 = monthKey c1"
  by (simp add: monthKey_def)

lemma logCost_first:
  assumes "os_get month (costs s) (monthKey c) = None"
  shows "os_get month (costs (logCost i Transcription amount c s)) (monthKey c) =
      Some \<lparr>month = monthKey c, transcriptionCost = amount, summarizationCost = 0,
            meetingCount = 1, totalCost = js_add amount 0,
            lastUpdated = IsoString (timeValue c)\<rparr>"
  using assms by (simp add: logCost_def updateCostTracking_def os_get_put)

lemma logCost_next:
  assumes "monthKey c = k" and "os_get month (costs s) k = Some existing"
  shows "os_get month (costs (logCost i Transcription amount c s)) k =
      Some (existing\<lparr>transcriptionCost := js_add (transcriptionCost existing) amount,
              summarizationCost := js_add (summarizationCost existing) 0,
              meetingCount := js_add (meetingCount existing) 1,
              totalCost := js_add (js_add (js_add (transcriptionCost existing)
                               (summarizationCost existing)) amount) 0,
              lastUpdated := IsoString (timeValue c)\<rparr>)"
proof -
  have "month existing = k" using assms(2) by (rule os_get_key)
  then show ?thesis
    using assms by (simp add: logCost_def updateCostTracking_def os_get_put)
qed

text \<open>
  C5, as amended. Starting from a store with no cost record for the month, three
  \<open>logCost\<close> calls of type transcription with amount \<open>0.10\<close> in the same calendar month
  leave a cost record for that month with \<open>summarizationCost\<close> 0, \<open>meetingCount\<close> 3, and
  \<open>transcriptionCost\<close> and \<open>totalCost\<close> both equal to the double sum
  \<open>(0.10 + 0.10) + 0.10 = 5404319552844596 / 2\<^sup>5\<^sup>4\<close>, printed 0.30000000000000004.
\<close>

theorem logCost_three_times:
  assumes "os_get month (costs s) (monthKey c1) = None"
    and "fullYear c2 = fullYear c1" "monthIndex c2 = monthIndex c1"
    and "fullYear c3 = fullYear c1" "monthIndex c3 = monthIndex c1"
  shows "map_option (\<lambda>r. (transcriptionCost r, summarizationCost r, meetingCount r, totalCost r))
           (os_get month
              (costs (logCost i3 Transcription tenCents c3
                        (logCost i2 Transcription tenCents c2
                           (logCost i1 Transcription tenCents c1 s))))
              (monthKey c1)) =
         Some (5404319552844596 / 2 ^ 54, 0, 3, 5404319552844596 / 2 ^ 54)"
proof -
  have k2: "monthKey c2 = monthKey c1" using assms(2,3) by (rule same_month_key)
  have k3: "monthKey c3 = monthKey c1" using assms(4,5) by (rule same_month_key)
  define s1 where "s1 = logCost i1 Transcription tenCents c1 s"
  define s2 where "s2 = logCost i2 Transcription tenCents c2 s1"
  define s3 where "s3 = logCost i3 Transcription tenCents c3 s2"
  have r1: "os_get month (costs s1) (monthKey c1) =
      Some \<lparr>month = monthKey c1, transcriptionCost = tenCents, summarizationCost = 0,
            meetingCount = 1, totalCost = tenCents, lastUpdated = IsoString (timeValue c1)\<rparr>"
    unfolding s1_def using logCost_first [OF assms(1), of i1 tenCents]
    by (simp add: tenCents_sums)
  have r2: "os_get month (costs s2) (monthKey c1) =
      Some \<lparr>month = monthKey c1, transcriptionCost = js_add tenCents tenCents,
            summarizationCost = 0, meetingCount = 2, totalCost = js_add tenCents tenCents,
            lastUpdated = IsoString (timeValue c2)\<rparr>"
    unfolding s2_def using logCost_next [OF k2 r1, of i2 tenCents]
    by (simp add: tenCents_sums)
  have r3: "os_get month (costs s3) (monthKey c1) =
      Some \<lparr>month = monthKey c1, transcriptionCost = 5404319552844596 / 2 ^ 54,
            summarizationCost = 0, meetingCount = 3, totalCost = 5404319552844596 / 2 ^ 54,
            lastUpdated = IsoString (timeValue c3)\<rparr>"
    unfolding s3_def using logCost_next [OF k3 r2, of i3 tenCents]
    by (simp add: tenCents_sums del: power_numeral)
  show ?thesis
    unfolding s1_def [symmetric] s2_def [symmetric] s3_def [symmetric]
    by (simp add: r3 del: power_numeral)
qed

text \<open>
  C5 as stated fails: after the three calls on the empty store, \<open>transcriptionCost\<close> and
  \<open>totalCost\<close> are not the double \<open>0.30\<close>, which is \<open>5404319552844595 / 2\<^sup>5\<^sup>4\<close> (nor the
  rational 3/10); they are the next double above it.
\<close>

theorem logCost_three_times_not_exact:
  "map_option transcriptionCost (os_get month (costs threeLogged) ''2025-10'') =
     Some (5404319552844596 / 2 ^ 54) \<and>
   map_option totalCost (os_get month (costs threeLogged) ''2025-10'') =
     Some (5404319552844596 / 2 ^ 54) \<and>
   (5404319552844596 / 2 ^ 54 :: rat) \<noteq> toDouble (3 / 10) \<and>
   (5404319552844596 / 2 ^ 54 :: rat) \<noteq> 3 / 10 \<and>
   toDouble (3 / 10) = 5404319552844595 / 2 ^ 54"
  by code_simp

theorem logCost_three_times_witness:
  "os_get month (costs emptyStore) (monthKey october) = None \<and>
   map_option (\<lambda>r. (transcriptionCost r, summarizationCost r, meetingCount r, totalCost r))
     (os_get month (costs threeLogged) (monthKey october)) =
   Some (5404319552844596 / 2 ^ 54, 0, 3, 5404319552844596 / 2 ^ 54)"
proof -
  have e: "os_get month (costs emptyStore) (monthKey october) = None"
    by (simp add: emptyStore_def os_get_def)
  from logCost_three_times [OF e, of "october\<lparr>timeValue := 1760000100000\<rparr>"
      "october\<lparr>timeValue := 1760000200000\<rparr>" "''m3''" "''m2''" "''m1''"] e
  show ?thesis by (simp add: threeLogged_def)
qed


section \<open>Combining the transcripts of audio chunks\<close>

lemma js_add_ge:
  assumes "0 \<le> c" and "toDouble c = c" and "0 \<le> t"
  shows "c \<le> js_add t c"
proof -
  have "toDouble c \<le> toDouble (t + c)" using assms(1,3) by (intro toDouble_mono) simp_all
  then show ?thesis by (simp add: js_add_def assms(2))
qed

lemma js_add_mono:
  assumes "0 \<le> c" and "0 \<le> t" and "t \<le> u"
  shows "js_add t c \<le> js_add u c"
  unfolding js_add_def using assms by (intro toDouble_mono) simp_all

lemma js_add_double: "0 \<le> c \<Longrightarrow> 0 \<le> t \<Longrightarrow> toDouble (js_add t c) = js_add t c"
  by (simp add: js_add_def toDouble_idem)

lemma timeline_adjust:
  "timeline (map (adjustTimestamps c) segs) = map (\<lambda>t. js_add t c) (timeline segs)"
  by (induction segs) (simp_all add: timeline_def adjustTimestamps_def)

lemma timeline_append: "timeline (xs @ ys) = timeline xs @ timeline ys"
  by (simp add: timeline_def)

lemma timeline_Nil_iff: "timeline segs = [] \<longleftrightarrow> segs = []"
  by (cases segs) (simp_all add: timeline_def)

lemma last_timeline: "segs \<noteq> [] \<Longrightarrow> last (timeline segs) = seg_end (last segs)"
  by (induction segs) (auto simp: timeline_def)

lemma sorted_shift:
  assumes "0 \<le> c" and "sorted ts" and "list_all (\<lambda>t. 0 \<le> t) ts"
  shows "sorted (map (\<lambda>t. js_add t c) ts)"
  using assms(2,3)
proof (induction ts)
  case Nil
  show ?case by simp
next
  case (Cons t ts)
  then have "\<forall>u \<in> set ts. js_add t c \<le> js_add u c"
    using assms(1) by (auto intro: js_add_mono)
  with Cons show ?case by simp
qed


lemma transcribeAudio_transcribed:
  assumes "transcribed (b, ans)"
  shows "\<exists>rtext. transcribeAudio ans b =
           Inr \<lparr>resp_text = rtext, segments = Some (answeredSegments (b, ans))\<rparr>"
  using assms
  by (cases ans) (auto simp: transcribed_def transcribeAudio_def answeredSegments_def)

lemma transcribeChunks_sorted:
  assumes "list_all transcribed chunks"
    and "list_all (\<lambda>ch. wellTimed (answeredSegments ch)) chunks"
    and "0 \<le> c" and "toDouble c = c"
  shows "\<exists>results. transcribeChunks chunks c = Inr results \<and>
           sorted (c # timeline (concat (map segmentsOrEmpty results)))"
  using assms
proof (induction chunks arbitrary: c)
  case Nil
  show ?case by (simp add: timeline_def)
next
  case (Cons ch chunks)
  obtain b ans where ch: "ch = (b, ans)" by (cases ch)
  from Cons.prems(1) have tr: "transcribed (b, ans)" and trs: "list_all transcribed chunks"
    by (simp_all add: ch)
  from Cons.prems(2) have wt: "wellTimed (answeredSegments (b, ans))"
    and wts: "list_all (\<lambda>ch. wellTimed (answeredSegments ch)) chunks"
    by (simp_all add: ch)
  define segs where "segs = answeredSegments (b, ans)"
  define A where "A = map (adjustTimestamps c) segs"
  define c' where "c' = (if A = [] then c else seg_end (last A))"
  from transcribeAudio_transcribed [OF tr] obtain rtext
    where ta: "transcribeAudio ans b = Inr \<lparr>resp_text = rtext, segments = Some segs\<rparr>"
    by (auto simp: segs_def)
  have TA: "timeline A = map (\<lambda>t. js_add t c) (timeline segs)"
    by (simp add: A_def timeline_adjust)
  have pos: "list_all (\<lambda>t. 0 \<le> t) (timeline segs)" and so: "sorted (timeline segs)"
    using wt by (simp_all add: wellTimed_def segs_def)
  have sA: "sorted (timeline A)"
    unfolding TA using Cons.prems(3) so pos by (rule sorted_shift)
  have geA: "\<forall>x \<in> set (timeline A). c \<le> x \<and> toDouble x = x"
    unfolding TA using pos Cons.prems(3,4)
    by (auto simp: list_all_iff js_add_ge js_add_double)
  have c'_last: "A \<noteq> [] \<Longrightarrow> c' = last (timeline A)"
    by (simp add: c'_def last_timeline)
  have c'_in: "A \<noteq> [] \<Longrightarrow> c' \<in> set (timeline A)"
    using c'_last by (simp add: timeline_Nil_iff)
  have c'_ge: "c \<le> c'" and c'_d: "toDouble c' = c'"
    using geA c'_in Cons.prems(4) by (cases "A = []"; auto simp: c'_def)+
  have c'_0: "0 \<le> c'" using c'_ge Cons.prems(3) by simp
  from Cons.IH [OF trs wts c'_0 c'_d] obtain results
    where res: "transcribeChunks chunks c' = Inr results"
      and sR: "sorted (c' # timeline (concat (map segmentsOrEmpty results)))"
    by blast
  define R where "R = timeline (concat (map segmentsOrEmpty results))"
  have sR': "sorted R" and geR: "\<forall>y \<in> set R. c' \<le> y"
    using sR by (simp_all add: R_def)
  have leA: "\<forall>x \<in> set (timeline A). x \<le> c'"
  proof (cases "A = []")
    case True
    then show ?thesis by (simp add: timeline_def)
  next
    case False
    then have ne: "timeline A \<noteq> []" by (simp add: timeline_Nil_iff)
    show ?thesis
    proof
      fix x assume "x \<in> set (timeline A)"
      then obtain i where i: "i < length (timeline A)" "x = timeline A ! i"
        by (auto simp: in_set_conv_nth)
      have "timeline A ! i \<le> timeline A ! (length (timeline A) - 1)"
        using sA i(1) by (intro sorted_nth_mono) simp_all
      then show "x \<le> c'"
        using ne by (simp add: i(2) c'_last [OF False] last_conv_nth)
    qed
  qed
  have run: "transcribeChunks (ch # chunks) c =
      Inr (\<lparr>resp_text = rtext, segments = Some A\<rparr> # results)"
    using res by (simp add: ch ta Let_def A_def [symmetric] c'_def [symmetric])
  have tl: "timeline (concat (map segmentsOrEmpty (\<lparr>resp_text = rtext, segments = Some A\<rparr> # results)))
      = timeline A @ R"
    by (simp add: segmentsOrEmpty_def timeline_append R_def)
  have "sorted (c # timeline A @ R)"
    using sA sR' geA geR leA c'_ge by (fastforce simp: sorted_append)
  with run tl show ?case by simp
qed

lemma transcribeChunks_reoffset:
  assumes "transcribeChunks chunks c = Inr results"
    and "c = (if combined = [] then 0 else seg_end (last combined))"
  shows "combined @ concat (map segmentsOrEmpty results) =
           reoffsetAll (map answeredSegments chunks) combined"
  using assms
proof (induction chunks arbitrary: c combined results)
  case Nil
  then show ?case by simp
next
  case (Cons ch chunks)
  obtain b ans where ch: "ch = (b, ans)" by (cases ch)
  from Cons.prems(1) obtain result where ta: "transcribeAudio ans b = Inr result"
    by (auto simp: ch split: sum.splits)
  then have seg: "segments result = Some (answeredSegments (b, ans))"
    by (auto simp: transcribeAudio_def answeredSegments_def split: if_splits sum.splits)
  define A where "A = map (adjustTimestamps c) (answeredSegments (b, ans))"
  define c' where "c' = (if A = [] then c else seg_end (last A))"
  have step: "transcribeChunks (ch # chunks) c =
      (case transcribeChunks chunks c' of
         Inl e \<Rightarrow> Inl e
       | Inr rs \<Rightarrow> Inr (result\<lparr>segments := Some A\<rparr> # rs))"
    by (simp add: ch ta seg Let_def A_def [symmetric] c'_def [symmetric])
  from Cons.prems(1) obtain rest where rest: "transcribeChunks chunks c' = Inr rest"
    and results: "results = result\<lparr>segments := Some A\<rparr> # rest"
    unfolding step by (auto split: sum.splits)
  have inv: "c' = (if combined @ A = [] then 0 else seg_end (last (combined @ A)))"
    using Cons.prems(2) by (simp add: c'_def)
  from Cons.IH [OF rest inv]
  have "(combined @ A) @ concat (map segmentsOrEmpty rest) =
      reoffsetAll (map answeredSegments chunks) (combined @ A)" .
  moreover have "segmentsOrEmpty (result\<lparr>segments := Some A\<rparr>) = A"
    by (simp add: segmentsOrEmpty_def)
  moreover have "reoffsetAll (map answeredSegments (ch # chunks)) combined =
      reoffsetAll (map answeredSegments chunks) (combined @ A)"
    by (simp add: ch A_def Cons.prems(2))
  ultimately show ?case by (simp add: results)
qed

text \<open>
  C8. For every list of chunks that are all transcribed and whose own segments are each
  well timed (timestamps non-decreasing and at or after 0), \<open>transcribeChunkedAudio\<close>
  returns, and its combined segments are those of the chunks, each chunk shifted by the
  shifted end time of the last segment before it; the timestamps of the combined
  segments are non-decreasing, across the chunk boundaries too. Sums are double sums.
\<close>

theorem transcribeChunkedAudio_timestamps:
  assumes "list_all transcribed chunks"
    and "list_all (\<lambda>ch. wellTimed (answeredSegments ch)) chunks"
  shows "\<exists>r. transcribeChunkedAudio chunks = Inr r \<and>
           segments r = Some (reoffsetAll (map answeredSegments chunks) []) \<and>
           sorted (timeline (reoffsetAll (map answeredSegments chunks) []))"
proof -
  from transcribeChunks_sorted [OF assms, of 0] obtain results
    where res: "transcribeChunks chunks 0 = Inr results"
      and so: "sorted (0 # timeline (concat (map segmentsOrEmpty results)))"
    by (auto simp: toDouble_zero)
  from transcribeChunks_reoffset [OF res, of "[]"]
  have eq: "concat (map segmentsOrEmpty results) = reoffsetAll (map answeredSegments chunks) []"
    by simp
  show ?thesis
    using res so by (simp add: transcribeChunkedAudio_def eq)
qed

theorem transcribeChunkedAudio_timestamps_witness:
  "list_all transcribed twoChunks \<and>
   list_all (\<lambda>ch. wellTimed (answeredSegments ch)) twoChunks \<and>
   (\<exists>r. transcribeChunkedAudio twoChunks = Inr r \<and>
      map_option timeline (segments r) = Some [0, 5 / 2, 5 / 2, 4, 9 / 2, 11 / 2])"
proof -
  have h1: "list_all transcribed twoChunks"
    by (simp add: twoChunks_def transcribed_def MAX_FILE_SIZE_def)
  have h2: "list_all (\<lambda>ch. wellTimed (answeredSegments ch)) twoChunks"
    by (simp add: twoChunks_def wellTimed_def answeredSegments_def timeline_def mkSegment_def)
  have sums: "js_add 0 0 = 0" "js_add (5 / 2) 0 = 5 / 2" "js_add 4 0 = 4"
    "js_add (1 / 2) 4 = 9 / 2" "js_add (3 / 2) 4 = 11 / 2"
    by code_simp+
  have tl: "timeline (reoffsetAll (map answeredSegments twoChunks) []) =
      [0, 5 / 2, 5 / 2, 4, 9 / 2, 11 / 2]"
    by (simp add: twoChunks_def answeredSegments_def timeline_def mkSegment_def
        adjustTimestamps_def sums)
  from transcribeChunkedAudio_timestamps [OF h1 h2] obtain r
    where "transcribeChunkedAudio twoChunks = Inr r"
      and "segments r = Some (reoffsetAll (map answeredSegments twoChunks) [])"
    by blast
  with h1 h2 tl show ?thesis by simp
qed

end
